theory Spec2Isabelle
  imports Main
begin

text \<open>
  The interval timer of app.js: the parser of the workout text, the expansion of sets into
  a timeline, and the timer that runs through the timeline. The model follows the version
  of app.js that plays a sample three seconds before the end of a step and accepts an
  activity without a name.
\<close>

section \<open>JavaScript values used by app.js\<close>

text \<open>
  A JavaScript number that app.js computes is a double with an integer value, \<open>NaN\<close>, or the
  value \<open>undefined\<close> read from a property that an object does not have. A double holds
  an integer up to \<open>2^53\<close> in magnitude exactly and, above that, 53 significant bits:
  the result of an operation is the exact result rounded to the nearest double, and in a
  tie to the one with the even significand. The exponent range is taken as unbounded: a
  value of \<open>2^1024\<close> or more, which JavaScript holds as \<open>Infinity\<close>, is outside the model.
\<close>

datatype jsnum = Num int | NaN | Undefined

text \<open>The distance between neighbouring doubles at the magnitude \<open>n\<close>.\<close>

function spacing :: "int \<Rightarrow> int" where
  "spacing n = (if n < 9007199254740992 then 1 else 2 * spacing (n div 2))"
  by pat_completeness auto
termination
  by (relation "measure nat") auto

text \<open>The multiple of \<open>u\<close> nearest to the fraction \<open>p / q\<close>; in a tie, the even multiple.\<close>

definition round_half_even :: "int \<Rightarrow> int \<Rightarrow> int \<Rightarrow> int" where
  "round_half_even p q u =
     (let k = p div (q * u); r = p mod (q * u)
      in if 2 * r < q * u then k * u
         else if q * u < 2 * r then (k + 1) * u
         else if even k then k * u else (k + 1) * u)"

text \<open>The double nearest to an integer.\<close>

definition double :: "int \<Rightarrow> int" where
  "double a =
     (if \<bar>a\<bar> \<le> 9007199254740992 then a
      else sgn a * round_half_even \<bar>a\<bar> 1 (spacing \<bar>a\<bar>))"

text \<open>\<open>a - b\<close>, \<open>a + b\<close>, \<open>a * b\<close>: \<open>undefined\<close> converts to \<open>NaN\<close>, which propagates.\<close>

fun jsub :: "jsnum \<Rightarrow> jsnum \<Rightarrow> jsnum" where
  "jsub (Num a) (Num b) = Num (double (a - b))"
| "jsub _ _ = NaN"

fun jadd :: "jsnum \<Rightarrow> jsnum \<Rightarrow> jsnum" where
  "jadd (Num a) (Num b) = Num (double (a + b))"
| "jadd _ _ = NaN"

fun jmul :: "jsnum \<Rightarrow> jsnum \<Rightarrow> jsnum" where
  "jmul (Num a) (Num b) = Num (double (a * b))"
| "jmul _ _ = NaN"

text \<open>\<open>Math.max(a, b)\<close> is \<open>NaN\<close> as soon as one argument is.\<close>

fun Math_max :: "jsnum \<Rightarrow> jsnum \<Rightarrow> jsnum" where
  "Math_max (Num a) (Num b) = Num (max a b)"
| "Math_max _ _ = NaN"

text \<open>\<open>a <= b\<close>, \<open>a > b\<close>, \<open>a === b\<close> on numbers: false whenever \<open>NaN\<close> takes part.\<close>

fun jle :: "jsnum \<Rightarrow> jsnum \<Rightarrow> bool" where
  "jle (Num a) (Num b) = (a \<le> b)"
| "jle _ _ = False"

fun jgt :: "jsnum \<Rightarrow> jsnum \<Rightarrow> bool" where
  "jgt (Num a) (Num b) = (a > b)"
| "jgt _ _ = False"

fun jeq :: "jsnum \<Rightarrow> jsnum \<Rightarrow> bool" where
  "jeq (Num a) (Num b) = (a = b)"
| "jeq Undefined Undefined = True"
| "jeq _ _ = False"

text \<open>Truthiness of a number, as tested by \<open>cur.interval ? ... : ...\<close>.\<close>

fun truthy :: "jsnum \<Rightarrow> bool" where
  "truthy (Num a) = (a \<noteq> 0)"
| "truthy _ = False"

subsection \<open>Numbers as text\<close>

definition digit_char :: "nat \<Rightarrow> char" where
  "digit_char d = char_of (48 + d)"

fun show_nat :: "nat \<Rightarrow> string" where
  "show_nat n = (if n < 10 then [digit_char n] else show_nat (n div 10) @ [digit_char (n mod 10)])"

definition show_int :: "int \<Rightarrow> string" where
  "show_int i = (if i < 0 then CHR ''-'' # show_nat (nat (- i)) else show_nat (nat i))"

text \<open>
  The text of a double above \<open>2^53\<close>: the digits \<open>s\<close> of the shortest decimal number
  \<open>s * 10^(len - k)\<close>, of \<open>k\<close> digits, that rounds to the double, and among those of the one
  nearest to it; then zeros up to \<open>len\<close> digits, or the exponent form from 22 digits on.
\<close>

definition candidates :: "nat \<Rightarrow> nat \<Rightarrow> (nat \<times> nat) list" where
  "candidates n k =
     concat (map (\<lambda>len.
       concat (map (\<lambda>s.
         if k \<le> len \<and> 10 ^ (k - 1) \<le> s \<and> s < 10 ^ k \<and>
            double (int (s * 10 ^ (len - k))) = int n
         then [(s, len)] else [])
         [n div 10 ^ (len - k), Suc (n div 10 ^ (len - k))]))
       [length (show_nat n), Suc (length (show_nat n))])"

definition nearer :: "nat \<Rightarrow> nat \<Rightarrow> nat \<times> nat \<Rightarrow> nat \<times> nat \<Rightarrow> nat \<times> nat" where
  "nearer n k c b =
     (let dc = \<bar>int (fst c * 10 ^ (snd c - k)) - int n\<bar>;
          db = \<bar>int (fst b * 10 ^ (snd b - k)) - int n\<bar>
      in if dc < db \<or> dc = db \<and> even (fst c) \<and> odd (fst b) then c else b)"

definition shortest :: "nat \<Rightarrow> nat \<times> nat" where
  "shortest n =
     (case concat (map (\<lambda>k. case candidates n k of [] \<Rightarrow> []
                              | c # cs \<Rightarrow> [fold (nearer n k) cs c]) [1 ..< 18]) of
        [] \<Rightarrow> (n, length (show_nat n))
      | c # _ \<Rightarrow> c)"

definition big_text :: "nat \<Rightarrow> string" where
  "big_text n =
     (let ds = show_nat (fst (shortest n)); len = snd (shortest n)
      in if len \<le> 21 then ds @ replicate (len - length ds) CHR ''0''
         else hd ds # (if 1 < length ds then CHR ''.'' # tl ds else []) @ ''e+'' @ show_nat (len - 1))"

text \<open>\<open>String(v)\<close> for a number, as in a template literal.\<close>

fun toString :: "jsnum \<Rightarrow> string" where
  "toString (Num a) =
     (if \<bar>a\<bar> \<le> 9007199254740992 then show_int a
      else (if a < 0 then ''-'' else []) @ big_text (nat \<bar>a\<bar>))"
| "toString NaN = ''NaN''"
| "toString Undefined = ''undefined''"

text \<open>\<open>s.padStart(2, "0")\<close>.\<close>

definition padStart2 :: "string \<Rightarrow> string" where
  "padStart2 s = replicate (2 - length s) CHR ''0'' @ s"

text \<open>
  \<open>Math.floor(sec / 60)\<close>. The quotient is rounded to a double before \<open>Math.floor\<close> sees
  it; up to \<open>2^53\<close> the rounding never reaches the next integer, and above it the quotient
  is computed in units of \<open>1/64\<close>.
\<close>

definition quotient60 :: "int \<Rightarrow> int" where
  "quotient60 n = round_half_even (64 * n) 60 (spacing ((64 * n) div 60))"

fun floor_div60 :: "jsnum \<Rightarrow> jsnum" where
  "floor_div60 (Num a) =
     Num (if \<bar>a\<bar> \<le> 9007199254740992 then a div 60
          else if 0 \<le> a then quotient60 a div 64
          else - ((quotient60 (- a) + 63) div 64))"
| "floor_div60 _ = NaN"

text \<open>\<open>sec % 60\<close> is exact; the remainder has the sign of \<open>sec\<close>.\<close>

fun rem60 :: "jsnum \<Rightarrow> jsnum" where
  "rem60 (Num a) = Num (if 0 \<le> a then a mod 60 else - ((- a) mod 60))"
| "rem60 _ = NaN"

definition format :: "jsnum \<Rightarrow> string" where
  "format sec = (let m = floor_div60 sec; s = rem60 sec
                 in toString m @ '':'' @ padStart2 (toString s))"

section \<open>Plan and timeline\<close>

text \<open>
  An activity object \<open>{name, duration}\<close>, and a timeline entry, which is the same object
  with \<open>interval\<close> and \<open>intervalTotal\<close> when it comes from a set. A property that the
  object does not have reads as \<open>undefined\<close>: \<open>None\<close> for the name, \<open>Undefined\<close> for a
  number. The \<open>type\<close> property that \<open>flattenWorkout\<close> copies into a timeline entry is
  never read again and is left out.
\<close>

record step =
  name :: "string option"
  duration :: jsnum
  interval :: jsnum
  intervalTotal :: jsnum

text \<open>
  A block of the parsed plan: \<open>{type: "activity", ...parseActivity(line)}\<close>, where the
  spread of \<open>null\<close> adds no property, or \<open>{type: "set", repeat, steps}\<close>.
\<close>

datatype block = ActivityBlock "step option" | SetBlock jsnum "step list"

definition no_properties :: step where
  "no_properties = \<lparr>name = None, duration = Undefined, interval = Undefined, intervalTotal = Undefined\<rparr>"

subsection \<open>flattenWorkout\<close>

text \<open>\<open>timeline.push({...step, interval: r, intervalTotal: block.repeat})\<close> for each step.\<close>

definition push_steps :: "int \<Rightarrow> jsnum \<Rightarrow> step list \<Rightarrow> step list \<Rightarrow> step list" where
  "push_steps r repeat steps out =
     fold (\<lambda>st acc. acc @ [st\<lparr>interval := Num r, intervalTotal := repeat\<rparr>]) steps out"

text \<open>\<open>for (let r = 1; r <= block.repeat; r++)\<close>, entered with \<open>r\<close>.\<close>

function set_loop :: "int \<Rightarrow> jsnum \<Rightarrow> step list \<Rightarrow> step list \<Rightarrow> step list" where
  "set_loop r repeat steps out =
     (if jle (Num r) repeat then set_loop (r + 1) repeat steps (push_steps r repeat steps out)
      else out)"
  by pat_completeness auto
termination
  by (relation "measure (\<lambda>(r, repeat, steps, out). case repeat of Num n \<Rightarrow> nat (n + 1 - r) | _ \<Rightarrow> 0)")
     (auto elim: jle.elims)

declare set_loop.simps [simp del]

definition flatten_block :: "block \<Rightarrow> step list \<Rightarrow> step list" where
  "flatten_block b out =
     (case b of
        ActivityBlock a \<Rightarrow> out @ [case a of None \<Rightarrow> no_properties | Some st \<Rightarrow> st]
      | SetBlock repeat steps \<Rightarrow> set_loop 1 repeat steps out)"

definition flattenWorkout :: "block list \<Rightarrow> step list" where
  "flattenWorkout parsed = fold flatten_block parsed []"

subsection \<open>The expansion as the specification words it\<close>






section \<open>Strings and regular expressions\<close>

text \<open>
  A string is a list of characters with codes \<open>0..255\<close>. White space, for \<open>trim\<close>
  and for \<open>\s\<close>, is TAB, LF, VT, FF, CR, space and the no-break space; a digit is one of
  \<open>0..9\<close>; \<open>.\<close> is any character but LF and CR. A text with a character above
  \<open>U+00FF\<close>, among them further spaces and line separators of Unicode, is outside the
  model.
\<close>

definition is_space :: "char \<Rightarrow> bool" where
  "is_space c = (of_char c \<in> {9, 10, 11, 12, 13, 32, 160 :: nat})"

definition is_digit :: "char \<Rightarrow> bool" where
  "is_digit c = (48 \<le> (of_char c :: nat) \<and> (of_char c :: nat) \<le> 57)"

definition is_line_terminator :: "char \<Rightarrow> bool" where
  "is_line_terminator c = (of_char c \<in> {10, 13 :: nat})"

text \<open>Case folding of the \<open>i\<close> flag: a letter \<open>a..z\<close> becomes \<open>A..Z\<close>.\<close>

definition canonicalize :: "char \<Rightarrow> char" where
  "canonicalize c =
     (if 97 \<le> (of_char c :: nat) \<and> (of_char c :: nat) \<le> 122 then char_of (of_char c - 32 :: nat) else c)"

definition trim :: "string \<Rightarrow> string" where
  "trim s = rev (dropWhile is_space (rev (dropWhile is_space s)))"

text \<open>\<open>s.split(sep)\<close> for a separator of one character.\<close>

fun split :: "char \<Rightarrow> string \<Rightarrow> string list" where
  "split sep [] = [[]]"
| "split sep (c # cs) =
     (if c = sep then [] # split sep cs
      else (case split sep cs of [] \<Rightarrow> [[c]] | w # ws \<Rightarrow> (c # w) # ws))"

text \<open>
  \<open>parseInt(s)\<close> in base ten: leading white space, a sign, then the longest run of
  digits; \<open>NaN\<close> when there is none, and else the double nearest to the number the digits
  write. (The strings app.js passes never start with \<open>0x\<close>. From the 21st significant
  digit on an implementation may read a digit as 0; the value here is the exact one.)
\<close>

definition digits_value :: "string \<Rightarrow> int" where
  "digits_value ds = foldl (\<lambda>acc d. acc * 10 + (int (of_char d) - 48)) 0 ds"

definition parseInt :: "string \<Rightarrow> jsnum" where
  "parseInt s =
     (let t = dropWhile is_space s;
          sign = (case t of c # u \<Rightarrow> if c = CHR ''-'' then - 1 else 1 | [] \<Rightarrow> 1);
          u = (case t of c # u \<Rightarrow> if c = CHR ''-'' \<or> c = CHR ''+'' then u else t | [] \<Rightarrow> t);
          ds = takeWhile is_digit u
      in if ds = [] then NaN else Num (double (sign * digits_value ds)))"

subsection \<open>A backtracking matcher\<close>

text \<open>
  The constructs of the regular expressions in app.js, all under the \<open>i\<close> flag:
  character classes and literals, sequence, alternation, the greedy quantifiers \<open>*\<close> and
  \<open>?\<close> (\<open>r+\<close> is \<open>r r*\<close>), capture groups and \<open>$\<close>.
\<close>

datatype cclass = Digit | Space | Dot | Lit char

fun in_class :: "cclass \<Rightarrow> char \<Rightarrow> bool" where
  "in_class Digit c = is_digit c"
| "in_class Space c = is_space c"
| "in_class Dot c = (\<not> is_line_terminator c)"
| "in_class (Lit l) c = (canonicalize c = canonicalize l)"

datatype rx = Eps | Class cclass | Seq rx rx | Alt rx rx | Star rx | Opt rx | Group nat rx | Eos

type_synonym captures = "(nat \<times> string) list"

text \<open>
  \<open>rmatch r s caps\<close> lists, in the order in which backtracking tries them, the ways \<open>r\<close>
  matches a prefix of \<open>s\<close>: the rest of the input and the captures after each. A greedy
  quantifier tries one more iteration before it tries to stop, and an iteration that
  consumes nothing is rejected.
\<close>

function rmatch :: "rx \<Rightarrow> string \<Rightarrow> captures \<Rightarrow> (string \<times> captures) list" where
  "rmatch Eps s caps = [(s, caps)]"
| "rmatch (Class k) s caps =
     (case s of [] \<Rightarrow> [] | c # cs \<Rightarrow> if in_class k c then [(cs, caps)] else [])"
| "rmatch (Seq a b) s caps = concat (map (\<lambda>x. rmatch b (fst x) (snd x)) (rmatch a s caps))"
| "rmatch (Alt a b) s caps = rmatch a s caps @ rmatch b s caps"
| "rmatch (Star a) s caps =
     concat (map (\<lambda>x. rmatch (Star a) (fst x) (snd x))
                 (filter (\<lambda>x. length (fst x) < length s) (rmatch a s caps)))
     @ [(s, caps)]"
| "rmatch (Opt a) s caps =
     filter (\<lambda>x. length (fst x) < length s) (rmatch a s caps) @ [(s, caps)]"
| "rmatch (Group n a) s caps =
     map (\<lambda>x. (fst x, (n, take (length s - length (fst x)) s) # snd x)) (rmatch a s caps)"
| "rmatch Eos s caps = (if s = [] then [(s, caps)] else [])"
  by pat_completeness auto
termination
  by (relation "measures [\<lambda>(r, s, caps). size r, \<lambda>(r, s, caps). length s]") auto

declare rmatch.simps(5) [simp del]

definition Plus :: "rx \<Rightarrow> rx" where
  "Plus r = Seq r (Star r)"

fun seqs :: "rx list \<Rightarrow> rx" where
  "seqs [] = Eps"
| "seqs [r] = r"
| "seqs (r # rs) = Seq r (seqs rs)"

definition lit :: "string \<Rightarrow> rx" where
  "lit w = seqs (map (\<lambda>c. Class (Lit c)) w)"

text \<open>
  The result of \<open>str.match(re)\<close> for a regular expression without the \<open>g\<close> flag: the
  matched text and the captures, \<open>None\<close> for \<open>null\<close>. A group that took no part in the
  match is \<open>undefined\<close>.
\<close>

record match_result =
  matched :: string
  groups :: captures

definition group :: "match_result \<Rightarrow> nat \<Rightarrow> string option" where
  "group m n = map_of (groups m) n"

text \<open>A pattern that starts with \<open>^\<close> can only match at the start of the string.\<close>

definition match_at :: "rx \<Rightarrow> string \<Rightarrow> match_result option" where
  "match_at r s =
     (case rmatch r s [] of
        [] \<Rightarrow> None
      | x # _ \<Rightarrow> Some \<lparr>matched = take (length s - length (fst x)) s, groups = snd x\<rparr>)"

text \<open>A pattern without \<open>^\<close> is tried at each position from the left.\<close>

fun match_search :: "rx \<Rightarrow> string \<Rightarrow> match_result option" where
  "match_search r [] = match_at r []"
| "match_search r (c # cs) =
     (case match_at r (c # cs) of Some m \<Rightarrow> Some m | None \<Rightarrow> match_search r cs)"

text \<open>
  \<open>String(m)\<close> of a match array with two groups, as \<open>parseInt(m)\<close> converts it: the
  elements joined by commas, \<open>undefined\<close> as the empty string.
\<close>

definition array_toString :: "match_result \<Rightarrow> string" where
  "array_toString m =
     matched m @ '','' @ (case group m 1 of None \<Rightarrow> [] | Some g \<Rightarrow> g)
               @ '','' @ (case group m 2 of None \<Rightarrow> [] | Some g \<Rightarrow> g)"

section \<open>Parsing\<close>

text \<open>\<open>/(\d+)\s*(m|min)/i\<close> and \<open>/(\d+)\s*(s|sec)/i\<close>.\<close>

definition re_min :: rx where
  "re_min = seqs [Group 1 (Plus (Class Digit)), Star (Class Space),
                  Group 2 (Alt (lit ''m'') (lit ''min''))]"

definition re_sec :: rx where
  "re_sec = seqs [Group 1 (Plus (Class Digit)), Star (Class Space),
                  Group 2 (Alt (lit ''s'') (lit ''sec''))]"

definition parseDuration :: "string \<Rightarrow> jsnum" where
  "parseDuration str =
     (let total = Num 0;
          min_match = match_search re_min str;
          sec_match = match_search re_sec str;
          total = (case min_match of None \<Rightarrow> total
                   | Some m \<Rightarrow> jadd total (jmul (parseInt (array_toString m)) (Num 60)));
          total = (case sec_match of None \<Rightarrow> total
                   | Some m \<Rightarrow> jadd total (parseInt (array_toString m)))
      in total)"

text \<open>\<open>/^(\d+\s*(?:m|min|s|sec)(?:\s*\d*\s*(?:s|sec))?)(?:\s+(.*))?$/i\<close>.\<close>

definition re_activity :: rx where
  "re_activity =
     seqs [Group 1 (seqs [Plus (Class Digit), Star (Class Space),
                          Alt (lit ''m'') (Alt (lit ''min'') (Alt (lit ''s'') (lit ''sec''))),
                          Opt (seqs [Star (Class Space), Star (Class Digit), Star (Class Space),
                                     Alt (lit ''s'') (lit ''sec'')])]),
           Opt (Seq (Plus (Class Space)) (Group 2 (Star (Class Dot)))),
           Eos]"

text \<open>
  \<open>parseActivity\<close> returns \<open>null\<close> (\<open>None\<close>) or \<open>{name, duration}\<close>. Group 1 takes part
  in every match.
\<close>

definition parseActivity :: "string \<Rightarrow> step option" where
  "parseActivity text =
     (case match_at re_activity (trim text) of
        None \<Rightarrow> None
      | Some m \<Rightarrow>
          Some \<lparr>name = Some (case group m 2 of None \<Rightarrow> [] | Some g \<Rightarrow> if g \<noteq> [] then trim g else []),
                duration = parseDuration (case group m 1 of None \<Rightarrow> [] | Some g \<Rightarrow> g),
                interval = Undefined, intervalTotal = Undefined\<rparr>)"

text \<open>\<open>/^(\d+)x\s*\((.+)\)$/i\<close>.\<close>

definition re_set :: rx where
  "re_set = seqs [Group 1 (Plus (Class Digit)), lit ''x'', Star (Class Space), lit ''('',
                  Group 2 (Plus (Class Dot)), lit '')'', Eos]"

text \<open>
  \<open>filter(Boolean)\<close> keeps the truthy elements: a string that is not empty, a value that
  is not \<open>null\<close>, and every object.
\<close>

definition Boolean_string :: "string \<Rightarrow> bool" where
  "Boolean_string l = (l \<noteq> [])"

definition Boolean_block :: "block \<Rightarrow> bool" where
  "Boolean_block b = True"

definition parseLine :: "string \<Rightarrow> block" where
  "parseLine line =
     (case match_at re_set line of
        None \<Rightarrow> ActivityBlock (parseActivity line)
      | Some set_match \<Rightarrow>
          SetBlock (parseInt (case group set_match 1 of None \<Rightarrow> [] | Some g \<Rightarrow> g))
                   (List.map_filter parseActivity
                      (split CHR '','' (case group set_match 2 of None \<Rightarrow> [] | Some g \<Rightarrow> g))))"

definition parseWorkout :: "string \<Rightarrow> block list" where
  "parseWorkout text =
     filter Boolean_block
       (map parseLine (filter Boolean_string (map trim (split (CHR 0x0A) text))))"

section \<open>Timer state\<close>

text \<open>The text of the five page elements.\<close>

record display =
  clock :: string
  activityEl :: string
  intervalEl :: string
  elapsedEl :: string
  remainingEl :: string

text \<open>
  A timer of the browser: the interval that calls \<open>tick\<close> every 1000 ms, or the timeout
  that plays the sample; each with the milliseconds left until it fires. The 120 ms
  timeout inside \<open>pulseClock\<close> only restores the scale of the clock and belongs to the
  rendering.
\<close>

datatype timer = Interval nat | Timeout nat

text \<open>
  What the page shows and plays, in order: the display after \<open>updateUI\<close>, \<open>stop\<close> or
  \<open>finish\<close> wrote to it, a call of \<open>pulseClock\<close>, a call of \<open>playSample\<close>, and an
  exception that left a handler.
\<close>

datatype effect = Shown display | Pulse | Sample | Uncaught

text \<open>
  The globals of app.js, the page (the five texts and the \<open>active\<close> class of the start
  and pause buttons), the timers that are pending (in the order in which they were armed)
  with the counter that numbers them, and the trace of effects.
\<close>

record state =
  timeline :: "step list"
  index :: nat
  remaining :: jsnum
  elapsed :: int
  intervalId :: "nat option"
  sampleTimeoutId :: "nat option"
  isRunning :: bool
  isPaused :: bool
  dom :: display
  startActive :: bool
  pauseActive :: bool
  timers :: "(nat \<times> timer) list"
  nextId :: nat
  trace :: "effect list"

text \<open>
  A function of app.js returns, or throws a \<open>TypeError\<close> when it reads a property of
  \<open>timeline[index]\<close> and the index is out of range; the globals keep what was assigned
  before the throw.
\<close>

datatype outcome = Returned state | Threw state

fun and_then :: "outcome \<Rightarrow> (state \<Rightarrow> outcome) \<Rightarrow> outcome" where
  "and_then (Returned s) f = f s"
| "and_then (Threw s) f = Threw s"

subsection \<open>Browser timers\<close>

text \<open>\<open>clearInterval(id)\<close> and \<open>clearTimeout(id)\<close>; \<open>null\<close> and a stale id clear nothing.\<close>

definition clearTimer :: "nat option \<Rightarrow> state \<Rightarrow> state" where
  "clearTimer handle s =
     (case handle of None \<Rightarrow> s | Some i \<Rightarrow> s\<lparr>timers := filter (\<lambda>t. fst t \<noteq> i) (timers s)\<rparr>)"

text \<open>\<open>intervalId = setInterval(tick, 1000)\<close>.\<close>

definition setInterval :: "state \<Rightarrow> state" where
  "setInterval s =
     s\<lparr>timers := timers s @ [(nextId s, Interval 1000)],
       intervalId := Some (nextId s), nextId := Suc (nextId s)\<rparr>"

text \<open>\<open>sampleTimeoutId = setTimeout(() => { playSample(); sampleTimeoutId = null; }, ms)\<close>.\<close>

definition setTimeout :: "nat \<Rightarrow> state \<Rightarrow> state" where
  "setTimeout ms s =
     s\<lparr>timers := timers s @ [(nextId s, Timeout ms)],
       sampleTimeoutId := Some (nextId s), nextId := Suc (nextId s)\<rparr>"

text \<open>
  \<open>if (sampleTimeoutId) { clearTimeout(sampleTimeoutId); sampleTimeoutId = null; }\<close>;
  a timer id is a positive number, so it is truthy.
\<close>

definition clearSample :: "state \<Rightarrow> state" where
  "clearSample s =
     (case sampleTimeoutId s of None \<Rightarrow> s
      | Some i \<Rightarrow> (clearTimer (Some i) s)\<lparr>sampleTimeoutId := None\<rparr>)"

definition playSample :: "state \<Rightarrow> state" where
  "playSample s = s\<lparr>trace := trace s @ [Sample]\<rparr>"

definition pulseClock :: "state \<Rightarrow> state" where
  "pulseClock s = s\<lparr>trace := trace s @ [Pulse]\<rparr>"

text \<open>
  The delay that the browser takes from the second argument of \<open>setTimeout\<close>: the number
  is converted to a signed integer of 32 bits, modulo \<open>2^32\<close>, and a negative delay counts
  as 0.
\<close>

fun delay_ms :: "jsnum \<Rightarrow> nat" where
  "delay_ms (Num a) =
     (let x = a mod 4294967296 in if x < 2147483648 then nat x else 0)"
| "delay_ms _ = 0"

subsection \<open>UI updates\<close>

definition updateControls :: "state \<Rightarrow> state" where
  "updateControls s = s\<lparr>startActive := isRunning s, pauseActive := isPaused s\<rparr>"

text \<open>Assigning \<open>undefined\<close> to \<open>textContent\<close> empties the element.\<close>

definition textContent :: "string option \<Rightarrow> string" where
  "textContent v = (case v of None \<Rightarrow> [] | Some t \<Rightarrow> t)"

text \<open>The page after the writes of \<open>updateUI\<close>, for \<open>cur = timeline[index]\<close>.\<close>

definition rendered :: "state \<Rightarrow> display" where
  "rendered s =
     (let cur = timeline s ! index s;
          totalRemaining =
            jsub (foldl (\<lambda>acc a. jadd acc (duration a)) (Num 0) (drop (index s) (timeline s)))
                 (jsub (duration cur) (remaining s))
      in (dom s)\<lparr>clock := format (remaining s),
                  activityEl := textContent (name cur),
                  intervalEl := (if truthy (interval cur)
                                 then toString (interval cur) @ '' / '' @ toString (intervalTotal cur)
                                 else []),
                  elapsedEl := format (Num (elapsed s)),
                  remainingEl := format totalRemaining\<rparr>)"

text \<open>
  \<open>updateUI\<close> writes the clock first; with \<open>cur\<close> undefined the next statement,
  \<open>cur.name\<close>, throws.
\<close>

definition updateUI :: "state \<Rightarrow> outcome" where
  "updateUI s =
     (if index s < length (timeline s)
      then Returned (s\<lparr>dom := rendered s, trace := trace s @ [Shown (rendered s)]\<rparr>)
      else Threw (s\<lparr>dom := (dom s)\<lparr>clock := format (remaining s)\<rparr>\<rparr>))"

subsection \<open>Timer logic\<close>

text \<open>
  The scheduling of the sample in \<open>startActivity\<close>: not for the last entry of the
  timeline; after \<open>(remaining - 3) * 1000\<close> ms when \<open>remaining > 3\<close>; at once when
  \<open>remaining === 3\<close>.
\<close>

definition scheduleSample :: "state \<Rightarrow> state" where
  "scheduleSample s =
     (if int (index s) < int (length (timeline s)) - 1 then
        if jgt (remaining s) (Num 3)
        then setTimeout (delay_ms (jmul (jsub (remaining s) (Num 3)) (Num 1000))) s
        else if jeq (remaining s) (Num 3) then playSample s
        else s
      else s)"

definition startActivity :: "bool \<Rightarrow> state \<Rightarrow> outcome" where
  "startActivity subtractOne s =
     (let s1 = clearSample (clearTimer (intervalId s) s) in
      if index s1 < length (timeline s1) then
        let s2 = s1\<lparr>remaining :=
                       Math_max (Num 0)
                         (jsub (duration (timeline s1 ! index s1)) (Num (if subtractOne then 1 else 0)))\<rparr>
        in and_then (updateUI s2) (\<lambda>s3. Returned (scheduleSample (setInterval s3)))
      else Threw s1)"

definition finish :: "state \<Rightarrow> state" where
  "finish s =
     (let s1 = clearSample (clearTimer (intervalId s) s);
          d = (dom s1)\<lparr>clock := [CHR 0xF0, CHR 0x9F, CHR 0x8E, CHR 0x89], activityEl := ''done''\<rparr>;
          s2 = s1\<lparr>dom := d, trace := trace s1 @ [Shown d], isRunning := False\<rparr>
      in updateControls s2)"

definition nextActivity :: "state \<Rightarrow> outcome" where
  "nextActivity s =
     (let s1 = s\<lparr>index := Suc (index s)\<rparr> in
      if index s1 \<ge> length (timeline s1) then Returned (finish s1)
      else startActivity True s1)"

definition tick :: "state \<Rightarrow> outcome" where
  "tick s =
     (if jle (remaining s) (Num 0) then nextActivity s
      else
        let s1 = s\<lparr>remaining := jsub (remaining s) (Num 1), elapsed := double (elapsed s + 1)\<rparr>
        in and_then (updateUI s1) (\<lambda>s2. Returned (pulseClock s2)))"

definition start :: "string \<Rightarrow> state \<Rightarrow> outcome" where
  "start inputValue s =
     (let s1 = s\<lparr>timeline := flattenWorkout (parseWorkout inputValue)\<rparr> in
      if length (timeline s1) = 0 then Returned s1
      else
        let s2 = s1\<lparr>index := 0, elapsed := 0, isRunning := True, isPaused := False\<rparr>
        in and_then (startActivity False s2) (\<lambda>s3. Returned (updateControls s3)))"

definition pause :: "state \<Rightarrow> state" where
  "pause s =
     (let s1 = clearSample (clearTimer (intervalId s) s);
          s2 = s1\<lparr>isPaused := True, isRunning := False\<rparr>
      in updateControls s2)"

text \<open>
  \<open>resume\<close> schedules the sample as \<open>startActivity\<close> does, from the value \<open>remaining\<close>
  has at that moment, after clearing a timeout that is still pending.
\<close>

definition resume :: "state \<Rightarrow> state" where
  "resume s =
     (let s1 = setInterval (s\<lparr>isPaused := False, isRunning := True\<rparr>);
          s2 = (if int (index s1) < int (length (timeline s1)) - 1 then
                  let s3 = clearSample s1 in
                  if jgt (remaining s3) (Num 3)
                  then setTimeout (delay_ms (jmul (jsub (remaining s3) (Num 3)) (Num 1000))) s3
                  else if jeq (remaining s3) (Num 3) then playSample s3
                  else s3
                else s1)
      in updateControls s2)"

definition stop :: "state \<Rightarrow> state" where
  "stop s =
     (let s1 = clearSample (clearTimer (intervalId s) s);
          s2 = s1\<lparr>isRunning := False, isPaused := False\<rparr>;
          d = (dom s2)\<lparr>clock := ''00:00'', activityEl := ''ready'', intervalEl := [],
                       elapsedEl := ''0:00'', remainingEl := ''0:00''\<rparr>
      in updateControls (s2\<lparr>dom := d, trace := trace s2 @ [Shown d]\<rparr>))"

subsection \<open>Controls and the event loop\<close>

text \<open>
  Modelled from the spec: the page markup is not among the sources; before the first
  \<open>start\<close> the page is taken to show the idle values that \<open>stop\<close> writes. The globals
  are initialised as app.js declares them, and no timer is pending.
\<close>

definition idle_display :: display where
  "idle_display = \<lparr>clock = ''00:00'', activityEl = ''ready'', intervalEl = [],
                    elapsedEl = ''0:00'', remainingEl = ''0:00''\<rparr>"

definition init :: state where
  "init = \<lparr>timeline = [], index = 0, remaining = Num 0, elapsed = 0,
            intervalId = None, sampleTimeoutId = None, isRunning = False, isPaused = False,
            dom = idle_display, startActive = False, pauseActive = False,
            timers = [], nextId = 1, trace = []\<rparr>"

text \<open>An exception that leaves a handler is reported and the event loop goes on.\<close>

fun settle :: "outcome \<Rightarrow> state" where
  "settle (Returned s) = s"
| "settle (Threw s) = s\<lparr>trace := trace s @ [Uncaught]\<rparr>"

text \<open>
  The handlers of the three buttons. The start button first unlocks the audio, which does
  not touch the timer, and then runs \<open>if (isPaused) resume(); else start();\<close> with the
  text of the input box.
\<close>

definition startBtn_onclick :: "string \<Rightarrow> state \<Rightarrow> state" where
  "startBtn_onclick inputValue s = (if isPaused s then resume s else settle (start inputValue s))"

definition pauseBtn_onclick :: "state \<Rightarrow> state" where
  "pauseBtn_onclick s = (if isRunning s then pause s else s)"

definition stopBtn_onclick :: "state \<Rightarrow> state" where
  "stopBtn_onclick s = stop s"

text \<open>Time: \<open>d\<close> milliseconds pass while no timer is due earlier.\<close>

fun delay :: "timer \<Rightarrow> nat" where
  "delay (Interval d) = d"
| "delay (Timeout d) = d"

fun sooner :: "nat \<Rightarrow> timer \<Rightarrow> timer" where
  "sooner d (Interval e) = Interval (e - d)"
| "sooner d (Timeout e) = Timeout (e - d)"

definition may_wait :: "nat \<Rightarrow> state \<Rightarrow> bool" where
  "may_wait d s = list_all (\<lambda>t. d \<le> delay (snd t)) (timers s)"

definition wait :: "nat \<Rightarrow> state \<Rightarrow> state" where
  "wait d s = s\<lparr>timers := map (\<lambda>t. (fst t, sooner d (snd t))) (timers s)\<rparr>"

text \<open>
  The timer that fires next: the first, in the order of arming, that is due. An interval
  that is armed again counts as armed at that moment.
\<close>

definition due :: "state \<Rightarrow> (nat \<times> timer) option" where
  "due s = find (\<lambda>t. delay (snd t) = 0) (timers s)"

text \<open>
  Firing runs the callback with the timer still registered. Afterwards an interval that
  the callback did not clear is armed again for 1000 ms, and a timeout is removed.
\<close>

fun fire :: "nat \<times> timer \<Rightarrow> state \<Rightarrow> state" where
  "fire (i, Interval d) s =
     (let s1 = settle (tick s) in
      if i \<in> fst ` set (timers s1)
      then s1\<lparr>timers := filter (\<lambda>t. fst t \<noteq> i) (timers s1) @ [(i, Interval 1000)]\<rparr>
      else s1)"
| "fire (i, Timeout d) s =
     (let s1 = (playSample s)\<lparr>sampleTimeoutId := None\<rparr>
      in s1\<lparr>timers := filter (\<lambda>t. fst t \<noteq> i) (timers s1)\<rparr>)"

text \<open>The states of the page: what clicks, the passing of time and the timers lead to.\<close>

inductive reachable :: "state \<Rightarrow> bool" where
  reach_init: "reachable init"
| reach_start: "reachable s \<Longrightarrow> reachable (startBtn_onclick inputValue s)"
| reach_pause: "reachable s \<Longrightarrow> reachable (pauseBtn_onclick s)"
| reach_stop: "reachable s \<Longrightarrow> reachable (stopBtn_onclick s)"
| reach_wait: "reachable s \<Longrightarrow> may_wait d s \<Longrightarrow> reachable (wait d s)"
| reach_fire: "reachable s \<Longrightarrow> due s = Some t \<Longrightarrow> reachable (fire t s)"

text \<open>
  The run mode of the specification, read off the two flags and the page: after
  \<open>finish\<close> the page shows \<open>done\<close>, after \<open>stop\<close> it shows \<open>ready\<close>.
\<close>

datatype runMode = Idle | Running | Paused | Finished

definition runMode :: "state \<Rightarrow> runMode" where
  "runMode s =
     (if isRunning s then Running
      else if isPaused s then Paused
      else if activityEl (dom s) = ''done'' then Finished
      else Idle)"

text \<open>The number of times the sample was played.\<close>

definition cues :: "state \<Rightarrow> nat" where
  "cues s = length (filter (\<lambda>e. e = Sample) (trace s))"

text \<open>What a test of a run looks at: mode, index, remaining, elapsed, samples played.\<close>

definition summary :: "state \<Rightarrow> runMode \<times> nat \<times> jsnum \<times> int \<times> nat" where
  "summary s = (runMode s, index s, remaining s, elapsed s, cues s)"

text \<open>
  The next thing the browser does when nobody clicks: the time until the earliest timer
  passes, and that timer fires.
\<close>

fun soonest :: "(nat \<times> timer) list \<Rightarrow> nat" where
  "soonest [] = 0"
| "soonest [t] = delay (snd t)"
| "soonest (t # ts) = min (delay (snd t)) (soonest ts)"

definition elapse :: "state \<Rightarrow> state" where
  "elapse s =
     (let s1 = wait (soonest (timers s)) s
      in case due s1 of None \<Rightarrow> s1 | Some t \<Rightarrow> fire t s1)"

text \<open>One invocation of \<open>tick\<close> by the interval.\<close>

definition on_tick :: "state \<Rightarrow> state" where
  "on_tick s = settle (tick s)"

section \<open>Notions of the properties\<close>


text \<open>
  Every pending timer is the one whose id the globals hold: an interval is
  \<open>intervalId\<close>, a timeout is \<open>sampleTimeoutId\<close>; ids are below the counter; and no timer
  is pending while paused.
\<close>

fun owner :: "nat option \<Rightarrow> nat option \<Rightarrow> timer \<Rightarrow> nat option" where
  "owner i t (Interval d) = i"
| "owner i t (Timeout d) = t"

definition owned :: "state \<Rightarrow> bool" where
  "owned s =
     list_all (\<lambda>t. owner (intervalId s) (sampleTimeoutId s) (snd t) = Some (fst t)) (timers s)"

definition fresh :: "state \<Rightarrow> bool" where
  "fresh s = list_all (\<lambda>t. fst t < nextId s) (timers s)"

definition timers_ok :: "state \<Rightarrow> bool" where
  "timers_ok s = (owned s \<and> fresh s \<and> (if isPaused s then timers s = [] else True))"

text \<open>
  The state \<open>startActivity\<close> reaches before it schedules the sample, when the index is in
  range; and the state \<open>tick\<close> reaches before it updates the page.
\<close>

definition entered :: "bool \<Rightarrow> state \<Rightarrow> state" where
  "entered subtractOne s =
     (let s1 = clearSample (clearTimer (intervalId s) s);
          s2 = s1\<lparr>remaining := Math_max (Num 0)
                  (jsub (duration (timeline s ! index s)) (Num (if subtractOne then 1 else 0)))\<rparr>
      in setInterval (s2\<lparr>dom := rendered s2, trace := trace s @ [Shown (rendered s2)]\<rparr>))"

definition counted :: "state \<Rightarrow> state" where
  "counted s = s\<lparr>remaining := jsub (remaining s) (Num 1), elapsed := double (elapsed s + 1)\<rparr>"

text \<open>A timeline whose steps all have a non-negative integer duration.\<close>

fun nonneg :: "jsnum \<Rightarrow> bool" where
  "nonneg (Num d) = (0 \<le> d)"
| "nonneg _ = False"

definition well_formed :: "step list \<Rightarrow> bool" where
  "well_formed steps = list_all (\<lambda>st. nonneg (duration st)) steps"

text \<open>
  \<open>index\<close> is a valid index into the timeline and \<open>remaining\<close> lies between 0 and the
  duration of the current step.
\<close>

fun within :: "jsnum \<Rightarrow> jsnum \<Rightarrow> bool" where
  "within (Num r) (Num d) = (0 \<le> r \<and> r \<le> d)"
| "within _ _ = False"

definition in_step :: "state \<Rightarrow> bool" where
  "in_step s = (index s < length (timeline s) \<and>
                within (remaining s) (duration (timeline s ! index s)))"

text \<open>
  A duration of whole seconds that a double counts down exactly: \<open>d - 1\<close> differs from
  \<open>d\<close> for every \<open>d\<close> from 1 to \<open>2^53\<close>.
\<close>

fun countable :: "jsnum \<Rightarrow> bool" where
  "countable (Num d) = (0 \<le> d \<and> d \<le> 9007199254740992)"
| "countable _ = False"

definition countable_durations :: "step list \<Rightarrow> bool" where
  "countable_durations steps = list_all (\<lambda>st. countable (duration st)) steps"

definition running :: "state \<Rightarrow> bool" where
  "running s = (isRunning s \<and> \<not> isPaused s \<and> countable_durations (timeline s) \<and> in_step s)"

text \<open>A tick makes progress: \<open>remaining\<close> goes down, or \<open>index\<close> goes up.\<close>

definition progress :: "state \<Rightarrow> state \<Rightarrow> bool" where
  "progress s s' =
     (index s' = index s \<and> jgt (remaining s) (remaining s') \<or> index s < index s')"

text \<open>The seconds of a duration, and the measure that bounds the ticks of a run.\<close>

fun seconds :: "jsnum \<Rightarrow> nat" where
  "seconds (Num d) = nat d"
| "seconds _ = 0"

definition total_duration :: "step list \<Rightarrow> nat" where
  "total_duration steps = sum_list (map (\<lambda>st. seconds (duration st)) steps)"

definition ticks_left :: "state \<Rightarrow> nat" where
  "ticks_left s =
     seconds (remaining s)
     + total_duration (drop (Suc (index s)) (timeline s))
     + length (drop (Suc (index s)) (timeline s)) + 1"






text \<open>The state after a tick that counts down.\<close>

definition ticked :: "state \<Rightarrow> state" where
  "ticked s = pulseClock ((counted s)\<lparr>dom := rendered (counted s),
                                     trace := trace s @ [Shown (rendered (counted s))]\<rparr>)"



section \<open>Numbers\<close>

declare spacing.simps [simp del]

lemma double_exact [simp]: "\<bar>a\<bar> \<le> 9007199254740992 \<Longrightarrow> double a = a"
  by (simp add: double_def)

text \<open>\<open>2^54 - 1\<close> lies half way between two doubles and rounds to \<open>2^54\<close>.\<close>

lemma double_below_2_54:
  "double 18014398509481983 = 18014398509481984"
  "double 18014398509481984 = 18014398509481984"
  by code_simp+




section \<open>Flattening\<close>









text \<open>
  The activity of a block that \<open>parseWorkout\<close> makes has no interval annotation, so the
  timeline entry of an activity block has none.
\<close>

lemma parseActivity_plain:
  "parseActivity t = Some st \<Longrightarrow> interval st = Undefined \<and> intervalTotal st = Undefined"
  by (auto simp: parseActivity_def split: option.splits)

lemma parseWorkout_activity_plain:
  assumes "ActivityBlock (Some st) \<in> set (parseWorkout txt)"
  shows "interval st = Undefined \<and> intervalTotal st = Undefined"
proof -
  from assms obtain line where "parseLine line = ActivityBlock (Some st)"
    by (auto simp: parseWorkout_def)
  then have "parseActivity line = Some st"
    by (simp add: parseLine_def split: option.splits)
  then show ?thesis by (rule parseActivity_plain)
qed

section \<open>Timers\<close>

lemma clears_fields [simp]:
  "timeline (clearSample (clearTimer h s)) = timeline s"
  "index (clearSample (clearTimer h s)) = index s"
  "remaining (clearSample (clearTimer h s)) = remaining s"
  "elapsed (clearSample (clearTimer h s)) = elapsed s"
  "isRunning (clearSample (clearTimer h s)) = isRunning s"
  "isPaused (clearSample (clearTimer h s)) = isPaused s"
  "dom (clearSample (clearTimer h s)) = dom s"
  "trace (clearSample (clearTimer h s)) = trace s"
  "nextId (clearSample (clearTimer h s)) = nextId s"
  "intervalId (clearSample (clearTimer h s)) = intervalId s"
  "sampleTimeoutId (clearSample (clearTimer h s)) = None"
  unfolding clearSample_def clearTimer_def
  by (auto split: option.splits)

lemma timers_clears:
  "timers (clearSample (clearTimer h s)) =
     filter (\<lambda>t. Some (fst t) \<noteq> sampleTimeoutId s) (filter (\<lambda>t. Some (fst t) \<noteq> h) (timers s))"
  unfolding clearSample_def clearTimer_def
  by (auto split: option.splits)

lemma owned_clears:
  assumes "owned s"
  shows "timers (clearSample (clearTimer (intervalId s) s)) = []"
proof -
  have "Some (fst t) = intervalId s \<or> Some (fst t) = sampleTimeoutId s"
    if "t \<in> set (timers s)" for t
    using assms that unfolding owned_def list_all_iff
    by (cases "snd t") auto
  then show ?thesis
    by (auto simp: timers_clears filter_empty_conv)
qed

lemma updateControls_fields [simp]:
  "timeline (updateControls s) = timeline s" "index (updateControls s) = index s"
  "remaining (updateControls s) = remaining s" "elapsed (updateControls s) = elapsed s"
  "isRunning (updateControls s) = isRunning s" "isPaused (updateControls s) = isPaused s"
  "timers (updateControls s) = timers s" "trace (updateControls s) = trace s"
  "intervalId (updateControls s) = intervalId s"
  "sampleTimeoutId (updateControls s) = sampleTimeoutId s"
  "nextId (updateControls s) = nextId s" "dom (updateControls s) = dom s"
  by (simp_all add: updateControls_def)

lemma clock_rendered [simp]: "clock (rendered s) = format (remaining s)"
  by (simp add: rendered_def Let_def)

lemma updateUI_in_range:
  "index s < length (timeline s) \<Longrightarrow>
   updateUI s = Returned (s\<lparr>dom := rendered s, trace := trace s @ [Shown (rendered s)]\<rparr>)"
  by (simp add: updateUI_def)

lemma startActivity_in_range:
  "index s < length (timeline s) \<Longrightarrow>
   startActivity sub s = Returned (scheduleSample (entered sub s))"
  by (simp add: startActivity_def entered_def Let_def updateUI_in_range)

lemma entered_fields [simp]:
  "timeline (entered sub s) = timeline s"
  "index (entered sub s) = index s"
  "elapsed (entered sub s) = elapsed s"
  "isRunning (entered sub s) = isRunning s"
  "isPaused (entered sub s) = isPaused s"
  "sampleTimeoutId (entered sub s) = None"
  "intervalId (entered sub s) = Some (nextId s)"
  "nextId (entered sub s) = Suc (nextId s)"
  "remaining (entered sub s) =
     Math_max (Num 0) (jsub (duration (timeline s ! index s)) (Num (if sub then 1 else 0)))"
  "clock (dom (entered sub s)) = format (remaining (entered sub s))"
  "trace (entered sub s) = trace s @ [Shown (dom (entered sub s))]"
  by (simp_all add: entered_def Let_def setInterval_def)

lemma entered_timers:
  "owned s \<Longrightarrow> timers (entered sub s) = [(nextId s, Interval 1000)]"
  by (simp add: entered_def Let_def setInterval_def owned_clears)

lemma scheduleSample_fields [simp]:
  "timeline (scheduleSample s) = timeline s"
  "index (scheduleSample s) = index s"
  "elapsed (scheduleSample s) = elapsed s"
  "remaining (scheduleSample s) = remaining s"
  "isRunning (scheduleSample s) = isRunning s"
  "isPaused (scheduleSample s) = isPaused s"
  "dom (scheduleSample s) = dom s"
  "intervalId (scheduleSample s) = intervalId s"
  by (simp_all add: scheduleSample_def setTimeout_def playSample_def)

lemma nextActivity_last:
  "length (timeline s) \<le> Suc (index s) \<Longrightarrow>
   nextActivity s = Returned (finish (s\<lparr>index := Suc (index s)\<rparr>))"
  by (simp add: nextActivity_def Let_def)

lemma nextActivity_more:
  "Suc (index s) < length (timeline s) \<Longrightarrow>
   nextActivity s = Returned (scheduleSample (entered True (s\<lparr>index := Suc (index s)\<rparr>)))"
  by (simp add: nextActivity_def Let_def startActivity_in_range)

lemma tick_advance: "jle (remaining s) (Num 0) \<Longrightarrow> tick s = nextActivity s"
  by (simp add: tick_def)

lemma tick_count:
  "\<not> jle (remaining s) (Num 0) \<Longrightarrow>
   tick s = and_then (updateUI (counted s)) (\<lambda>s2. Returned (pulseClock s2))"
  by (simp add: tick_def counted_def Let_def)

lemma settle_count_fields [simp]:
  "timers (settle (and_then (updateUI s) (\<lambda>s2. Returned (pulseClock s2)))) = timers s"
  "intervalId (settle (and_then (updateUI s) (\<lambda>s2. Returned (pulseClock s2)))) = intervalId s"
  "sampleTimeoutId (settle (and_then (updateUI s) (\<lambda>s2. Returned (pulseClock s2))))
     = sampleTimeoutId s"
  "nextId (settle (and_then (updateUI s) (\<lambda>s2. Returned (pulseClock s2)))) = nextId s"
  "isPaused (settle (and_then (updateUI s) (\<lambda>s2. Returned (pulseClock s2)))) = isPaused s"
  by (simp_all add: updateUI_def pulseClock_def)

lemma counted_fields [simp]:
  "timers (counted s) = timers s" "intervalId (counted s) = intervalId s"
  "sampleTimeoutId (counted s) = sampleTimeoutId s" "nextId (counted s) = nextId s"
  "isPaused (counted s) = isPaused s" "timeline (counted s) = timeline s"
  "index (counted s) = index s" "isRunning (counted s) = isRunning s"
  by (simp_all add: counted_def)

lemma finish_fields [simp]:
  "isRunning (finish s) = False" "isPaused (finish s) = isPaused s"
  "activityEl (dom (finish s)) = ''done''"
  "timeline (finish s) = timeline s" "index (finish s) = index s"
  "remaining (finish s) = remaining s"
  by (simp_all add: finish_def Let_def)

lemma start_empty:
  "flattenWorkout (parseWorkout inputValue) = [] \<Longrightarrow>
   start inputValue s = Returned (s\<lparr>timeline := []\<rparr>)"
  by (simp add: start_def)

lemma start_nonempty:
  "flattenWorkout (parseWorkout inputValue) \<noteq> [] \<Longrightarrow>
   start inputValue s =
     Returned (updateControls (scheduleSample (entered False
        (s\<lparr>timeline := flattenWorkout (parseWorkout inputValue), index := 0, elapsed := 0,
           isRunning := True, isPaused := False\<rparr>))))"
  by (simp add: start_def Let_def startActivity_in_range)

subsection \<open>The pending timers are the ones the globals hold\<close>

lemma timers_ok_empty: "timers s = [] \<Longrightarrow> timers_ok s"
  by (simp add: timers_ok_def owned_def fresh_def)

lemma timers_stop: "owned s \<Longrightarrow> timers (stop s) = []"
  by (simp add: stop_def Let_def owned_clears)

lemma timers_pause: "owned s \<Longrightarrow> timers (pause s) = []"
  by (simp add: pause_def Let_def owned_clears)

lemma timers_finish: "owned s \<Longrightarrow> timers (finish s) = []"
  by (simp add: finish_def Let_def owned_clears)

lemma timers_ok_scheduled:
  assumes "owned s" and "\<not> isPaused s"
  shows "timers_ok (scheduleSample (entered sub s))"
  using assms
  by (simp add: timers_ok_def owned_def fresh_def scheduleSample_def setTimeout_def
      playSample_def entered_timers)

lemma timers_ok_updateControls [simp]: "timers_ok (updateControls s) = timers_ok s"
  by (simp add: timers_ok_def owned_def fresh_def)

lemma timers_ok_start:
  assumes "timers_ok s" and "\<not> isPaused s"
  shows "timers_ok (settle (start inputValue s))"
proof (cases "flattenWorkout (parseWorkout inputValue) = []")
  case True
  then show ?thesis
    using assms by (simp add: start_empty timers_ok_def owned_def fresh_def)
next
  case False
  let ?s2 = "s\<lparr>timeline := flattenWorkout (parseWorkout inputValue), index := 0,
               elapsed := 0, isRunning := True, isPaused := False\<rparr>"
  have "owned ?s2"
    using assms(1) by (simp add: timers_ok_def owned_def)
  then show ?thesis
    using False by (simp add: start_nonempty timers_ok_scheduled)
qed

lemma timers_ok_resume:
  assumes "timers_ok s" and "isPaused s"
  shows "timers_ok (resume s)"
proof -
  have "timers s = []"
    using assms by (simp add: timers_ok_def)
  then show ?thesis
    by (simp add: resume_def Let_def setInterval_def clearSample_def clearTimer_def
        setTimeout_def playSample_def timers_ok_def owned_def fresh_def updateControls_def
        split: option.splits)
qed

lemma timers_ok_wait: "timers_ok s \<Longrightarrow> timers_ok (wait d s)"
proof -
  have "owner i j (sooner d t) = owner i j t" for i j t
    by (cases t) simp_all
  then show "timers_ok s \<Longrightarrow> timers_ok (wait d s)"
    by (simp add: timers_ok_def owned_def fresh_def list_all_iff) (simp add: wait_def)
qed

lemma timers_ok_fire_interval:
  assumes ok: "timers_ok s" and t: "(i, Interval d) \<in> set (timers s)"
  shows "timers_ok (fire (i, Interval d) s)"
proof -
  have own: "owned s" and fr: "fresh s" and np: "\<not> isPaused s"
    using ok t by (auto simp: timers_ok_def split: if_splits)
  have i: "intervalId s = Some i" and lt: "i < nextId s"
    using own fr t by (auto simp: owned_def fresh_def list_all_iff)
  have own': "owned (s\<lparr>index := Suc (index s)\<rparr>)"
    using own by (simp add: owned_def)
  show ?thesis
  proof (cases "jle (remaining s) (Num 0)")
    case adv: True
    show ?thesis
    proof (cases "Suc (index s) < length (timeline s)")
      case True
      let ?s' = "scheduleSample (entered True (s\<lparr>index := Suc (index s)\<rparr>))"
      have eq: "settle (tick s) = ?s'"
        using adv True by (simp add: tick_advance nextActivity_more)
      have ok': "timers_ok ?s'"
        using own' np by (simp add: timers_ok_scheduled)
      have "i \<notin> fst ` set (timers ?s')"
        using lt own' by (auto simp: scheduleSample_def setTimeout_def playSample_def entered_timers)
      with eq ok' show ?thesis by (simp add: Let_def)
    next
      case False
      have eq: "settle (tick s) = finish (s\<lparr>index := Suc (index s)\<rparr>)"
        using adv False by (simp add: tick_advance nextActivity_last)
      then show ?thesis
        using own' by (simp add: Let_def timers_finish timers_ok_empty)
    qed
  next
    case False
    let ?s1 = "settle (and_then (updateUI (counted s)) (\<lambda>s2. Returned (pulseClock s2)))"
    have eq: "settle (tick s) = ?s1"
      using False by (simp add: tick_count)
    have "i \<in> fst ` set (timers ?s1)"
      using t by (force simp: image_iff)
    then have "fire (i, Interval d) s =
        ?s1\<lparr>timers := filter (\<lambda>t. fst t \<noteq> i) (timers s) @ [(i, Interval 1000)]\<rparr>"
      using eq by (simp add: Let_def)
    then show ?thesis
      using own fr np i lt by (simp add: timers_ok_def owned_def fresh_def list_all_iff)
  qed
qed

lemma timers_ok_fire_timeout:
  assumes ok: "timers_ok s" and t: "(i, Timeout d) \<in> set (timers s)"
  shows "timers_ok (fire (i, Timeout d) s)"
proof -
  have own: "owned s" and fr: "fresh s" and np: "\<not> isPaused s"
    using ok t by (auto simp: timers_ok_def split: if_splits)
  have i: "sampleTimeoutId s = Some i"
    using own t by (auto simp: owned_def list_all_iff)
  have "owner (intervalId s) None (snd u) = Some (fst u)"
    if "u \<in> set (timers s)" and "fst u \<noteq> i" for u
    using own i that by (cases "snd u") (auto simp: owned_def list_all_iff)
  then show ?thesis
    using fr np by (simp add: timers_ok_def owned_def fresh_def list_all_iff playSample_def)
qed

lemma due_member: "due s = Some t \<Longrightarrow> t \<in> set (timers s)"
  by (auto simp: due_def find_Some_iff)

lemma timers_ok_fire:
  assumes "timers_ok s" and "due s = Some t"
  shows "timers_ok (fire t s)"
proof -
  obtain i k where t: "t = (i, k)" by (cases t)
  show ?thesis
  proof (cases k)
    case (Interval d)
    with assms due_member [OF assms(2)] t show ?thesis
      using timers_ok_fire_interval [of s i d] by simp
  next
    case (Timeout d)
    with assms due_member [OF assms(2)] t show ?thesis
      using timers_ok_fire_timeout [of s i d] by simp
  qed
qed

lemma reachable_timers_ok: "reachable s \<Longrightarrow> timers_ok s"
proof (induction rule: reachable.induct)
  case reach_init
  show ?case by (simp add: timers_ok_empty init_def)
next
  case (reach_start s inputValue)
  then show ?case
    by (simp add: startBtn_onclick_def timers_ok_start timers_ok_resume)
next
  case (reach_pause s)
  then have "timers (pause s) = []"
    by (simp add: timers_ok_def timers_pause)
  with reach_pause show ?case
    by (simp add: pauseBtn_onclick_def timers_ok_empty)
next
  case (reach_stop s)
  then have "timers (stop s) = []"
    by (simp add: timers_ok_def timers_stop)
  then show ?case
    by (simp add: stopBtn_onclick_def timers_ok_empty)
next
  case (reach_wait s d)
  then show ?case by (simp add: timers_ok_wait)
next
  case (reach_fire s t)
  then show ?case by (simp add: timers_ok_fire)
qed

text \<open>Letting the timers run is something the page can do.\<close>

lemma soonest_le: "t \<in> set ts \<Longrightarrow> soonest ts \<le> delay (snd t)"
  by (induction ts rule: soonest.induct) auto

lemma may_wait_soonest: "may_wait (soonest (timers s)) s"
  by (simp add: may_wait_def list_all_iff soonest_le)

lemma reachable_elapse:
  assumes "reachable s"
  shows "reachable (elapse s)"
proof -
  let ?w = "wait (soonest (timers s)) s"
  have w: "reachable ?w"
    using assms may_wait_soonest by (rule reach_wait)
  show ?thesis
  proof (cases "due ?w")
    case None
    with w show ?thesis by (simp add: elapse_def Let_def)
  next
    case (Some t)
    from reach_fire [OF w Some] Some show ?thesis by (simp add: elapse_def Let_def)
  qed
qed

section \<open>A run that nobody interrupts\<close>

lemma well_formed_nth:
  "well_formed steps \<Longrightarrow> i < length steps \<Longrightarrow> \<exists>d. duration (steps ! i) = Num d \<and> 0 \<le> d"
  unfolding well_formed_def list_all_length
  by (cases "duration (steps ! i)") (auto dest: spec [of _ i])

lemma countable_durations_nth:
  "countable_durations steps \<Longrightarrow> i < length steps \<Longrightarrow>
   \<exists>d. duration (steps ! i) = Num d \<and> 0 \<le> d \<and> d \<le> 9007199254740992"
  unfolding countable_durations_def list_all_length
  by (cases "duration (steps ! i)") (auto dest: spec [of _ i])

lemma runMode_finish: "\<not> isPaused s \<Longrightarrow> runMode (finish s) = Finished"
  by (simp add: runMode_def)

lemma tick_step:
  assumes "running s"
  shows "(runMode (on_tick s) = Finished \<or>
          running (on_tick s) \<and> ticks_left (on_tick s) < ticks_left s)
         \<and> progress s (on_tick s)"
proof -
  from assms have run: "isRunning s" "\<not> isPaused s" and wf: "countable_durations (timeline s)"
    and idx: "index s < length (timeline s)"
    and w: "within (remaining s) (duration (timeline s ! index s))"
    by (simp_all add: running_def in_step_def)
  from w obtain r d where r: "remaining s = Num r"
    and d: "duration (timeline s ! index s) = Num d" and rd: "0 \<le> r" "r \<le> d"
    by (cases "remaining s"; cases "duration (timeline s ! index s)") simp_all
  have "d \<le> 9007199254740992"
    using countable_durations_nth [OF wf idx] d by simp
  with rd have small: "r \<le> 9007199254740992"
    by simp
  show ?thesis
  proof (cases "r = 0")
    case zero: True
    show ?thesis
    proof (cases "Suc (index s) < length (timeline s)")
      case True
      let ?s' = "scheduleSample (entered True (s\<lparr>index := Suc (index s)\<rparr>))"
      have eq: "on_tick s = ?s'"
        using r zero True by (simp add: on_tick_def tick_advance nextActivity_more)
      obtain d' where d': "duration (timeline s ! Suc (index s)) = Num d'" "0 \<le> d'"
        "d' \<le> 9007199254740992"
        using countable_durations_nth [OF wf True] by blast
      have dr: "drop (Suc (index s)) (timeline s)
                 = timeline s ! Suc (index s) # drop (Suc (Suc (index s))) (timeline s)"
        using True by (simp add: Cons_nth_drop_Suc)
      have "running ?s'"
        using run wf True d' by (simp add: running_def in_step_def)
      moreover have "ticks_left ?s' < ticks_left s"
        using d' r zero by (simp add: ticks_left_def dr total_duration_def)
      moreover have "progress s ?s'"
        by (simp add: progress_def)
      ultimately show ?thesis
        using eq by simp
    next
      case False
      have eq: "on_tick s = finish (s\<lparr>index := Suc (index s)\<rparr>)"
        using r zero False by (simp add: on_tick_def tick_advance nextActivity_last)
      then show ?thesis
        using run by (simp add: runMode_finish progress_def)
    qed
  next
    case False
    let ?c = "counted s"
    have eq: "on_tick s =
        pulseClock (?c\<lparr>dom := rendered ?c, trace := trace ?c @ [Shown (rendered ?c)]\<rparr>)"
      using r False rd idx by (simp add: on_tick_def tick_count updateUI_in_range)
    have "remaining (on_tick s) = Num (r - 1)"
      unfolding eq using r rd small by (simp add: pulseClock_def counted_def)
    moreover have "timeline (on_tick s) = timeline s" "index (on_tick s) = index s"
      "isRunning (on_tick s) = isRunning s" "isPaused (on_tick s) = isPaused s"
      unfolding eq by (simp_all add: pulseClock_def)
    moreover have "nat (r - 1) < nat r"
      using rd False by simp
    ultimately show ?thesis
      using run wf idx r d rd False
      by (simp add: running_def in_step_def ticks_left_def progress_def del: length_drop)
  qed
qed

lemma run_to_finish:
  "running s \<Longrightarrow> ticks_left s \<le> n \<Longrightarrow>
   \<exists>k\<le>n. runMode ((on_tick ^^ k) s) = Finished \<and>
          (\<forall>j<k. running ((on_tick ^^ j) s) \<and>
                 progress ((on_tick ^^ j) s) ((on_tick ^^ Suc j) s))"
proof (induction n arbitrary: s)
  case 0
  then show ?case by (simp add: ticks_left_def)
next
  case (Suc n)
  from tick_step [OF Suc.prems(1)]
  have pr: "progress s (on_tick s)"
    and alt: "runMode (on_tick s) = Finished \<or>
              running (on_tick s) \<and> ticks_left (on_tick s) < ticks_left s"
    by simp_all
  from alt show ?case
  proof
    assume fin: "runMode (on_tick s) = Finished"
    have "runMode ((on_tick ^^ 1) s) = Finished \<and>
          (\<forall>j<1. running ((on_tick ^^ j) s) \<and>
                 progress ((on_tick ^^ j) s) ((on_tick ^^ Suc j) s))"
      using fin pr Suc.prems(1) by simp
    moreover have "(1::nat) \<le> Suc n" by simp
    ultimately show ?thesis by blast
  next
    assume "running (on_tick s) \<and> ticks_left (on_tick s) < ticks_left s"
    then have "running (on_tick s)" and "ticks_left (on_tick s) \<le> n"
      using Suc.prems(2) by simp_all
    from Suc.IH [OF this] obtain k where k: "k \<le> n"
      and fin: "runMode ((on_tick ^^ k) (on_tick s)) = Finished"
      and all: "\<forall>j<k. running ((on_tick ^^ j) (on_tick s)) \<and>
                     progress ((on_tick ^^ j) (on_tick s)) ((on_tick ^^ Suc j) (on_tick s))"
      by blast
    have shift: "(on_tick ^^ j) (on_tick s) = (on_tick ^^ Suc j) s" for j
      by (simp add: funpow_swap1)
    have "\<forall>j<Suc k. running ((on_tick ^^ j) s) \<and>
                    progress ((on_tick ^^ j) s) ((on_tick ^^ Suc j) s)"
    proof (intro allI impI)
      fix j assume j: "j < Suc k"
      show "running ((on_tick ^^ j) s) \<and> progress ((on_tick ^^ j) s) ((on_tick ^^ Suc j) s)"
      proof (cases j)
        case 0
        then show ?thesis using Suc.prems(1) pr by simp
      next
        case (Suc i)
        then have "i < k" using j by simp
        with all have "running ((on_tick ^^ i) (on_tick s)) \<and>
                     progress ((on_tick ^^ i) (on_tick s)) ((on_tick ^^ Suc i) (on_tick s))"
          by blast
        then show ?thesis
          unfolding Suc shift .
      qed
    qed
    moreover have "runMode ((on_tick ^^ Suc k) s) = Finished"
      using fin unfolding shift .
    moreover have "Suc k \<le> Suc n" using k by simp
    ultimately show ?thesis by blast
  qed
qed

lemma running_start:
  assumes "flattenWorkout (parseWorkout inputValue) \<noteq> []"
    and "countable_durations (flattenWorkout (parseWorkout inputValue))"
  shows "running (settle (start inputValue s))"
    and "ticks_left (settle (start inputValue s))
         = total_duration (flattenWorkout (parseWorkout inputValue))
           + length (flattenWorkout (parseWorkout inputValue))"
proof -
  let ?steps = "flattenWorkout (parseWorkout inputValue)"
  have len: "0 < length ?steps" using assms(1) by simp
  obtain d where d: "duration (?steps ! 0) = Num d" "0 \<le> d" "d \<le> 9007199254740992"
    using countable_durations_nth [OF assms(2) len] by blast
  obtain x xs where steps: "?steps = x # xs"
    using assms(1) by (cases ?steps) simp_all
  show "running (settle (start inputValue s))"
    using assms len d by (simp add: start_nonempty running_def in_step_def)
  show "ticks_left (settle (start inputValue s)) = total_duration ?steps + length ?steps"
    using d unfolding start_nonempty [OF assms(1)]
    by (simp add: ticks_left_def steps total_duration_def)
qed

text \<open>
  C10, within the range in which a double counts down. Started on a non-empty timeline
  that a JavaScript array holds (fewer than \<open>2^32\<close> steps) and whose steps all have a
  duration of 0 to \<open>2^53\<close> whole seconds, and neither paused nor stopped, the timer is
  finished after at most (sum of the durations + number of steps + 1) invocations of
  \<open>tick\<close>; until then every tick finds the timer running and either lowers \<open>remaining\<close>
  or raises \<open>index\<close>.
\<close>

theorem run_finishes:
  assumes "flattenWorkout (parseWorkout inputValue) \<noteq> []"
    and "length (flattenWorkout (parseWorkout inputValue)) < 4294967296"
    and "countable_durations (flattenWorkout (parseWorkout inputValue))"
  shows "\<exists>k \<le> total_duration (flattenWorkout (parseWorkout inputValue))
              + length (flattenWorkout (parseWorkout inputValue)) + 1.
           runMode ((on_tick ^^ k) (settle (start inputValue s))) = Finished \<and>
           (\<forall>j<k. running ((on_tick ^^ j) (settle (start inputValue s))) \<and>
                  progress ((on_tick ^^ j) (settle (start inputValue s)))
                           ((on_tick ^^ Suc j) (settle (start inputValue s))))"
  using run_to_finish [OF running_start(1) [OF assms(1,3)], of s
      "total_duration (flattenWorkout (parseWorkout inputValue))
              + length (flattenWorkout (parseWorkout inputValue)) + 1"]
    running_start(2) [OF assms(1,3), of s]
  by simp

text \<open>The timeline of a set of two rounds of two steps, for which the bound is 11 ticks.\<close>

lemma steps_of_rounds:
  "flattenWorkout (parseWorkout ''2x(2s run, 1s rest)'') =
     [\<lparr>name = Some ''run'', duration = Num 2, interval = Num 1, intervalTotal = Num 2\<rparr>,
      \<lparr>name = Some ''rest'', duration = Num 1, interval = Num 1, intervalTotal = Num 2\<rparr>,
      \<lparr>name = Some ''run'', duration = Num 2, interval = Num 2, intervalTotal = Num 2\<rparr>,
      \<lparr>name = Some ''rest'', duration = Num 1, interval = Num 2, intervalTotal = Num 2\<rparr>]"
  by code_simp

theorem run_finishes_witness:
  "flattenWorkout (parseWorkout ''2x(2s run, 1s rest)'') \<noteq> [] \<and>
   length (flattenWorkout (parseWorkout ''2x(2s run, 1s rest)'')) < 4294967296 \<and>
   countable_durations (flattenWorkout (parseWorkout ''2x(2s run, 1s rest)'')) \<and>
   (\<exists>k\<le>11. runMode ((on_tick ^^ k) (settle (start ''2x(2s run, 1s rest)'' init))) = Finished \<and>
      (\<forall>j<k. running ((on_tick ^^ j) (settle (start ''2x(2s run, 1s rest)'' init)))))"
proof -
  have ne: "flattenWorkout (parseWorkout ''2x(2s run, 1s rest)'') \<noteq> []"
    and len: "length (flattenWorkout (parseWorkout ''2x(2s run, 1s rest)'')) < 4294967296"
    and wf: "countable_durations (flattenWorkout (parseWorkout ''2x(2s run, 1s rest)''))"
    by (simp_all add: steps_of_rounds countable_durations_def)
  have bound: "total_duration (flattenWorkout (parseWorkout ''2x(2s run, 1s rest)''))
               + length (flattenWorkout (parseWorkout ''2x(2s run, 1s rest)'')) + 1 = 11"
    by (simp add: steps_of_rounds total_duration_def)
  from run_finishes [OF ne len wf, of init]
  obtain k where "k \<le> 11"
    and "runMode ((on_tick ^^ k) (settle (start ''2x(2s run, 1s rest)'' init))) = Finished"
    and "\<forall>j<k. running ((on_tick ^^ j) (settle (start ''2x(2s run, 1s rest)'' init)))"
    unfolding bound by blast
  with ne len wf show ?thesis by blast
qed

text \<open>
  Above \<open>2^53\<close> the claim fails. On the input of the two lines \<open>0s\<close> and
  \<open>18014398509481984s\<close> (\<open>2^54\<close> seconds) the timeline has two steps with a
  non-negative integer duration. The first tick moves to the second step; from then on
  \<open>remaining--\<close> computes \<open>2^54 - 1\<close>, which rounds back to \<open>2^54\<close>: a tick changes
  neither \<open>remaining\<close> nor \<open>index\<close>, and the timer is never finished.
\<close>

lemma steps_of_0s_2_54:
  "flattenWorkout (parseWorkout ''0s\<newline>18014398509481984s'') =
     [\<lparr>name = Some [], duration = Num 0, interval = Undefined, intervalTotal = Undefined\<rparr>,
      \<lparr>name = Some [], duration = Num 18014398509481984,
       interval = Undefined, intervalTotal = Undefined\<rparr>]"
  by code_simp

lemma start_0s_2_54:
  "timeline (settle (start ''0s\<newline>18014398509481984s'' init))
     = flattenWorkout (parseWorkout ''0s\<newline>18014398509481984s'')"
  "index (settle (start ''0s\<newline>18014398509481984s'' init)) = 0"
  "remaining (settle (start ''0s\<newline>18014398509481984s'' init)) = Num 0"
  "isRunning (settle (start ''0s\<newline>18014398509481984s'' init))"
proof -
  have ne: "flattenWorkout (parseWorkout ''0s\<newline>18014398509481984s'') \<noteq> []"
    by (simp add: steps_of_0s_2_54)
  show "timeline (settle (start ''0s\<newline>18014398509481984s'' init))
     = flattenWorkout (parseWorkout ''0s\<newline>18014398509481984s'')"
    "index (settle (start ''0s\<newline>18014398509481984s'' init)) = 0"
    "remaining (settle (start ''0s\<newline>18014398509481984s'' init)) = Num 0"
    "isRunning (settle (start ''0s\<newline>18014398509481984s'' init))"
    unfolding start_nonempty [OF ne] by (simp_all add: steps_of_0s_2_54)
qed

lemma enter_2_54:
  assumes "Suc (index s) < length (timeline s)"
    and "duration (timeline s ! Suc (index s)) = Num 18014398509481984"
    and "length (timeline s) \<le> Suc (Suc (index s))"
  shows "index (settle (nextActivity s)) = Suc (index s)"
    and "remaining (settle (nextActivity s)) = Num 18014398509481984"
    and "clock (dom (settle (nextActivity s))) = format (Num 18014398509481984)"
    and "trace (settle (nextActivity s)) = trace s @ [Shown (dom (settle (nextActivity s)))]"
    and "timeline (settle (nextActivity s)) = timeline s"
    and "isRunning (settle (nextActivity s)) = isRunning s"
proof -
  let ?e = "entered True (s\<lparr>index := Suc (index s)\<rparr>)"
  have rem: "remaining ?e = Num 18014398509481984"
    using assms(2) by (simp add: double_below_2_54)
  have eq: "settle (nextActivity s) = scheduleSample ?e"
    using assms(1) by (simp add: nextActivity_more)
  have last: "scheduleSample ?e = ?e"
    using assms(3) by (simp add: scheduleSample_def)
  show "index (settle (nextActivity s)) = Suc (index s)"
    and "remaining (settle (nextActivity s)) = Num 18014398509481984"
    and "clock (dom (settle (nextActivity s))) = format (Num 18014398509481984)"
    and "timeline (settle (nextActivity s)) = timeline s"
    and "isRunning (settle (nextActivity s)) = isRunning s"
    unfolding eq using rem by simp_all
  show "trace (settle (nextActivity s)) = trace s @ [Shown (dom (settle (nextActivity s)))]"
    unfolding eq last by simp
qed

lemma stuck_tick:
  assumes "remaining s = Num 18014398509481984" and "index s < length (timeline s)"
  shows "remaining (on_tick s) = remaining s" "index (on_tick s) = index s"
    "timeline (on_tick s) = timeline s" "isRunning (on_tick s) = isRunning s"
proof -
  let ?c = "counted s"
  have eq: "on_tick s =
      pulseClock (?c\<lparr>dom := rendered ?c, trace := trace ?c @ [Shown (rendered ?c)]\<rparr>)"
    using assms by (simp add: on_tick_def tick_count updateUI_in_range)
  show "remaining (on_tick s) = remaining s"
    unfolding eq using assms(1) by (simp add: pulseClock_def counted_def double_below_2_54)
  show "index (on_tick s) = index s" "timeline (on_tick s) = timeline s"
    "isRunning (on_tick s) = isRunning s"
    unfolding eq by (simp_all add: pulseClock_def)
qed

lemma stuck_run:
  assumes "remaining s = Num 18014398509481984" and "index s < length (timeline s)"
    and "isRunning s"
  shows "remaining ((on_tick ^^ k) s) = Num 18014398509481984 \<and>
         index ((on_tick ^^ k) s) = index s \<and> timeline ((on_tick ^^ k) s) = timeline s \<and>
         isRunning ((on_tick ^^ k) s)"
proof (induction k)
  case 0
  show ?case using assms by simp
next
  case (Suc k)
  then have r: "remaining ((on_tick ^^ k) s) = Num 18014398509481984"
    and i: "index ((on_tick ^^ k) s) < length (timeline ((on_tick ^^ k) s))"
    using assms(2) by simp_all
  show ?case
    using stuck_tick [OF r i] Suc by simp
qed

theorem run_of_2_54_seconds_never_finishes:
  "length (flattenWorkout (parseWorkout ''0s\<newline>18014398509481984s'')) = 2 \<and>
   well_formed (flattenWorkout (parseWorkout ''0s\<newline>18014398509481984s'')) \<and>
   index (on_tick (settle (start ''0s\<newline>18014398509481984s'' init))) = 1 \<and>
   remaining (on_tick (settle (start ''0s\<newline>18014398509481984s'' init)))
     = Num 18014398509481984 \<and>
   index (on_tick (on_tick (settle (start ''0s\<newline>18014398509481984s'' init)))) = 1 \<and>
   remaining (on_tick (on_tick (settle (start ''0s\<newline>18014398509481984s'' init))))
     = Num 18014398509481984 \<and>
   \<not> progress (on_tick (settle (start ''0s\<newline>18014398509481984s'' init)))
               (on_tick (on_tick (settle (start ''0s\<newline>18014398509481984s'' init)))) \<and>
   \<not> (\<exists>k. runMode ((on_tick ^^ k) (settle (start ''0s\<newline>18014398509481984s'' init)))
            = Finished)"
proof -
  let ?s = "settle (start ''0s\<newline>18014398509481984s'' init)"
  let ?steps = "flattenWorkout (parseWorkout ''0s\<newline>18014398509481984s'')"
  have ne: "?steps \<noteq> []" and len: "length ?steps = 2" and wf: "well_formed ?steps"
    by (simp_all add: steps_of_0s_2_54 well_formed_def)
  have tick1: "on_tick ?s = settle (nextActivity ?s)"
    by (simp add: on_tick_def tick_advance start_0s_2_54)
  have hyps: "Suc (index ?s) < length (timeline ?s)"
    "duration (timeline ?s ! Suc (index ?s)) = Num 18014398509481984"
    "length (timeline ?s) \<le> Suc (Suc (index ?s))"
    by (simp_all add: start_0s_2_54 steps_of_0s_2_54)
  have i1: "index (on_tick ?s) = 1" and r: "remaining (on_tick ?s) = Num 18014398509481984"
    and tl: "timeline (on_tick ?s) = ?steps" and run: "isRunning (on_tick ?s)"
    unfolding tick1 using enter_2_54 [OF hyps] by (simp_all add: start_0s_2_54)
  have i: "index (on_tick ?s) < length (timeline (on_tick ?s))"
    by (simp add: i1 tl steps_of_0s_2_54)
  have same: "remaining (on_tick (on_tick ?s)) = Num 18014398509481984"
    "index (on_tick (on_tick ?s)) = 1"
    using stuck_tick [OF r i] r i1 by simp_all
  then have np: "\<not> progress (on_tick ?s) (on_tick (on_tick ?s))"
    using r i1 by (simp add: progress_def)
  have "runMode ((on_tick ^^ k) ?s) = Running" for k
  proof (cases k)
    case 0
    then show ?thesis by (simp add: runMode_def start_0s_2_54)
  next
    case (Suc j)
    have "(on_tick ^^ Suc j) ?s = (on_tick ^^ j) (on_tick ?s)"
      by (simp add: funpow_swap1)
    then show ?thesis
      using stuck_run [OF r i run, of j] Suc by (simp add: runMode_def)
  qed
  then have "\<not> (\<exists>k. runMode ((on_tick ^^ k) ?s) = Finished)"
    by simp
  then show ?thesis
    using len wf i1 r same np by simp
qed

section \<open>The clock text\<close>

declare show_nat.simps [simp del]

lemma of_char_digit_char: "d < 10 \<Longrightarrow> (of_char (digit_char d) :: nat) = 48 + d"
  by (simp add: digit_char_def)

lemma digit_char_inject:
  assumes "a < 10" "b < 10" "digit_char a = digit_char b"
  shows "a = b"
proof -
  have "(of_char (digit_char a) :: nat) = of_char (digit_char b)"
    using assms(3) by (rule arg_cong)
  then have "48 + a = 48 + b"
    by (simp only: of_char_digit_char [OF assms(1)] of_char_digit_char [OF assms(2)])
  then show ?thesis by simp
qed

lemma digit_char_0: "digit_char 0 = CHR ''0''"
  by code_simp

lemma padStart2_show_nat:
  assumes "x < 100"
  shows "padStart2 (show_nat x) = [digit_char (x div 10), digit_char (x mod 10)]"
proof (cases "x < 10")
  case True
  then show ?thesis
    by (simp add: show_nat.simps [of x] padStart2_def digit_char_0 [symmetric])
next
  case False
  then have "x div 10 < 10" using assms by simp
  then show ?thesis
    using False by (simp add: show_nat.simps [of x] show_nat.simps [of "x div 10"] padStart2_def)
qed

lemma padStart2_inject:
  assumes "x < 60" "y < 60" "padStart2 (show_nat x) = padStart2 (show_nat y)"
  shows "x = y"
proof -
  have "digit_char (x div 10) = digit_char (y div 10)"
    "digit_char (x mod 10) = digit_char (y mod 10)"
    using assms by (simp_all add: padStart2_show_nat)
  then have "x div 10 = y div 10" "x mod 10 = y mod 10"
    using assms(1,2) by (auto intro: digit_char_inject)
  then show ?thesis
    by (metis div_mult_mod_eq)
qed

lemma format_seconds:
  assumes "0 \<le> a" and "a \<le> 9007199254740992"
  shows "format (Num a)
         = show_nat (nat (a div 60)) @ '':'' @ padStart2 (show_nat (nat a mod 60))"
proof -
  have "0 \<le> a div 60"
    using assms by (simp add: pos_imp_zdiv_nonneg_iff)
  moreover have "a div 60 \<le> 9007199254740992"
    using assms zdiv_mono2 [of a 1 60] by simp
  moreover have "(a mod 60 < 0) = False"
    by (simp add: not_less)
  moreover have "a mod 60 \<le> 9007199254740992"
  proof -
    have "a mod 60 < 60" by simp
    then show ?thesis by linarith
  qed
  ultimately show ?thesis
    using assms by (simp add: format_def Let_def show_int_def nat_mod_distrib)
qed

lemma format_changes:
  assumes "0 < d" and "d \<le> 9007199254740992"
  shows "format (Num (d - 1)) \<noteq> format (Num d)"
proof
  assume eq: "format (Num (d - 1)) = format (Num d)"
  let ?x = "nat (d - 1) mod 60" and ?y = "nat d mod 60"
  have len: "length (padStart2 (show_nat ?x)) = length (padStart2 (show_nat ?y))"
    by (simp add: padStart2_show_nat)
  have "show_nat (nat ((d - 1) div 60)) @ '':'' @ padStart2 (show_nat ?x)
      = show_nat (nat (d div 60)) @ '':'' @ padStart2 (show_nat ?y)"
    using eq assms by (simp add: format_seconds)
  then have "(show_nat (nat ((d - 1) div 60)) @ '':'') @ padStart2 (show_nat ?x)
      = (show_nat (nat (d div 60)) @ '':'') @ padStart2 (show_nat ?y)"
    by simp
  then have "padStart2 (show_nat ?x) = padStart2 (show_nat ?y)"
    using len append_eq_append_conv by blast
  then have xy: "?x = ?y"
    by (intro padStart2_inject) simp_all
  have "nat d = Suc (nat (d - 1))"
    using assms by simp
  then have "?y = Suc ?x mod 60"
    by (simp add: mod_Suc_eq)
  with xy show False
    by (simp add: mod_Suc split: if_splits)
qed

section \<open>Entering a step\<close>

text \<open>
  C6, within the range in which a double counts down. When \<open>next\<close> moves to a step of
  duration \<open>d\<close> with \<open>0 < d \<le> 2^53\<close>, \<open>remaining\<close> becomes \<open>d - 1\<close> and the first thing the
  page shows for the step is the clock at \<open>d - 1\<close>, which is not the text of the full
  duration; after it the handler at most plays the sample.
\<close>

theorem nextActivity_shows_duration_minus_one:
  assumes "Suc (index s) < length (timeline s)"
    and "duration (timeline s ! Suc (index s)) = Num d"
    and "0 < d" and "d \<le> 9007199254740992"
  shows "\<exists>s'. nextActivity s = Returned s' \<and> index s' = Suc (index s) \<and>
           remaining s' = Num (d - 1) \<and>
           clock (dom s') = format (Num (d - 1)) \<and> clock (dom s') \<noteq> format (Num d) \<and>
           (\<exists>rest. trace s' = trace s @ Shown (dom s') # rest \<and> (\<forall>e\<in>set rest. e = Sample))"
proof -
  let ?s1 = "s\<lparr>index := Suc (index s)\<rparr>"
  have "nextActivity s = Returned (scheduleSample (entered True ?s1))"
    using assms(1) by (simp add: nextActivity_more)
  moreover have "remaining (entered True ?s1) = Num (d - 1)"
    using assms(2,3,4) by simp
  moreover have "\<exists>rest. trace (scheduleSample (entered True ?s1))
                    = trace s @ Shown (dom (entered True ?s1)) # rest \<and>
                  (\<forall>e\<in>set rest. e = Sample)"
    by (simp add: scheduleSample_def setTimeout_def playSample_def)
  ultimately show ?thesis
    using format_changes [OF assms(3,4)] by simp
qed

lemma start_two_steps:
  "startBtn_onclick ''3s\<newline>5s'' init =
     \<lparr>timeline =
        [\<lparr>name = Some [], duration = Num 3, interval = Undefined, intervalTotal = Undefined\<rparr>,
         \<lparr>name = Some [], duration = Num 5, interval = Undefined, intervalTotal = Undefined\<rparr>],
      index = 0, remaining = Num 3, elapsed = 0, intervalId = Some 1,
      sampleTimeoutId = None, isRunning = True, isPaused = False,
      dom = \<lparr>clock = ''0:03'', activityEl = [], intervalEl = [],
              elapsedEl = ''0:00'', remainingEl = ''0:08''\<rparr>,
      startActive = True, pauseActive = False, timers = [(1, Interval 1000)], nextId = 2,
      trace = [Shown \<lparr>clock = ''0:03'', activityEl = [], intervalEl = [],
                       elapsedEl = ''0:00'', remainingEl = ''0:08''\<rparr>,
               Sample]\<rparr>"
  by code_simp

theorem nextActivity_shows_duration_minus_one_witness:
  "\<exists>s'. nextActivity (startBtn_onclick ''3s\<newline>5s'' init) = Returned s' \<and>
         index s' = 1 \<and> remaining s' = Num 4 \<and> clock (dom s') = ''0:04'' \<and>
         clock (dom s') \<noteq> format (Num 5)"
proof -
  let ?s = "startBtn_onclick ''3s\<newline>5s'' init"
  have "Suc (index ?s) < length (timeline ?s)" "duration (timeline ?s ! Suc (index ?s)) = Num 5"
    "(0::int) < 5" "(5::int) \<le> 9007199254740992"
    by (simp_all add: start_two_steps)
  from nextActivity_shows_duration_minus_one [OF this]
  obtain s' where "nextActivity ?s = Returned s'" "index s' = Suc (index ?s)"
    "remaining s' = Num (5 - 1)" "clock (dom s') = format (Num (5 - 1))"
    "clock (dom s') \<noteq> format (Num 5)"
    by auto
  moreover have "format (Num 4) = ''0:04''"
    by code_simp
  ultimately show ?thesis
    by (simp add: start_two_steps)
qed

text \<open>
  Above \<open>2^53\<close> the claim fails. On the input of the two lines \<open>0s\<close> and
  \<open>18014398509481984s\<close> the first tick moves to the second step, of \<open>d = 2^54\<close> seconds;
  \<open>d - 1\<close> rounds back to \<open>d\<close>, so \<open>remaining\<close> is the full duration and the first thing
  the page shows for the step is the clock at the full duration.
\<close>

theorem nextActivity_shows_full_duration:
  "duration (timeline (startBtn_onclick ''0s\<newline>18014398509481984s'' init) ! 1)
     = Num 18014398509481984 \<and>
   index (settle (nextActivity (startBtn_onclick ''0s\<newline>18014398509481984s'' init))) = 1 \<and>
   remaining (settle (nextActivity (startBtn_onclick ''0s\<newline>18014398509481984s'' init)))
     = Num 18014398509481984 \<and>
   clock (dom (settle (nextActivity (startBtn_onclick ''0s\<newline>18014398509481984s'' init))))
     = format (Num 18014398509481984) \<and>
   trace (settle (nextActivity (startBtn_onclick ''0s\<newline>18014398509481984s'' init)))
     = trace (startBtn_onclick ''0s\<newline>18014398509481984s'' init) @
       [Shown (dom (settle (nextActivity (startBtn_onclick ''0s\<newline>18014398509481984s'' init))))]"
proof -
  let ?S = "startBtn_onclick ''0s\<newline>18014398509481984s'' init"
  have S: "?S = settle (start ''0s\<newline>18014398509481984s'' init)"
    by (simp add: startBtn_onclick_def init_def)
  have hyps: "Suc (index ?S) < length (timeline ?S)"
    "duration (timeline ?S ! Suc (index ?S)) = Num 18014398509481984"
    "length (timeline ?S) \<le> Suc (Suc (index ?S))"
    unfolding S by (simp_all add: start_0s_2_54 steps_of_0s_2_54)
  have "index ?S = 0"
    unfolding S by (simp add: start_0s_2_54)
  then show ?thesis
    using enter_2_54 [OF hyps] hyps(2) by simp
qed

section \<open>The sample before the end of a step\<close>


lemma ticked_fields [simp]:
  "timeline (ticked s) = timeline s" "index (ticked s) = index s"
  "remaining (ticked s) = jsub (remaining s) (Num 1)"
  "isRunning (ticked s) = isRunning s" "isPaused (ticked s) = isPaused s"
  "timers (ticked s) = timers s" "intervalId (ticked s) = intervalId s"
  "sampleTimeoutId (ticked s) = sampleTimeoutId s" "nextId (ticked s) = nextId s"
  "cues (ticked s) = cues s"
  by (simp_all add: ticked_def pulseClock_def counted_def cues_def)



lemma fire_timeout:
  "fire (b, Timeout y) s =
     s\<lparr>trace := trace s @ [Sample], sampleTimeoutId := None,
       timers := filter (\<lambda>t. fst t \<noteq> b) (timers s)\<rparr>"
  by (simp add: playSample_def)

lemma wait_fields [simp]:
  "timeline (wait d s) = timeline s" "index (wait d s) = index s"
  "remaining (wait d s) = remaining s" "cues (wait d s) = cues s"
  "timers (wait d s) = map (\<lambda>t. (fst t, sooner d (snd t))) (timers s)"
  by (simp_all add: wait_def cues_def)

lemma cues_timers_update [simp]: "cues (s\<lparr>timers := ts\<rparr>) = cues s"
  by (simp add: cues_def)


















lemma not_last_iff:
  "(int (index s) < int (length (timeline s)) - 1) = (Suc (index s) < length (timeline s))"
  by auto












section \<open>Pause, resume and stop\<close>

lemma pause_resume_keeps_counters:
  "remaining (resume (pause s)) = remaining s \<and> elapsed (resume (pause s)) = elapsed s \<and>
   index (resume (pause s)) = index s \<and> timeline (resume (pause s)) = timeline s"
  by (simp add: resume_def pause_def Let_def setInterval_def setTimeout_def playSample_def
      clearSample_def clearTimer_def updateControls_def split: option.splits)

lemma resume_at_three:
  assumes "remaining s = Num 3" and "Suc (index s) < length (timeline s)"
  shows "cues (resume s) = Suc (cues s)"
  using assms
  by (simp add: resume_def Let_def not_last_iff setInterval_def clearSample_def clearTimer_def
      playSample_def updateControls_def cues_def split: option.splits)

text \<open>
  C1. Started on \<open>3s\<close> followed by \<open>5s\<close>, the timer plays the sample of the first step
  at once. Pausing and resuming before any tick leaves \<open>index\<close>, \<open>remaining\<close> and
  \<open>elapsed\<close> as they were and plays the sample of the same step a second time. When
  \<open>remaining\<close> reaches 0, three timer events later, the run that was not interrupted has
  played one sample and the run that was paused and resumed has played two.
\<close>

theorem resume_plays_sample_again:
  "summary (startBtn_onclick ''3s\<newline>5s'' init) = (Running, 0, Num 3, 0, 1) \<and>
   summary (pauseBtn_onclick (startBtn_onclick ''3s\<newline>5s'' init)) = (Paused, 0, Num 3, 0, 1) \<and>
   summary (startBtn_onclick [] (pauseBtn_onclick (startBtn_onclick ''3s\<newline>5s'' init)))
     = (Running, 0, Num 3, 0, 2) \<and>
   summary ((elapse ^^ 3) (startBtn_onclick ''3s\<newline>5s'' init)) = (Running, 0, Num 0, 3, 1) \<and>
   summary ((elapse ^^ 3)
      (startBtn_onclick [] (pauseBtn_onclick (startBtn_onclick ''3s\<newline>5s'' init))))
     = (Running, 0, Num 0, 3, 2)"
  unfolding start_two_steps by code_simp

text \<open>
  C9, as the code has it. From every state the page can reach, \<open>stop\<close> leaves no timer
  pending, puts the timer in the idle mode and shows the reset values (clock \<open>00:00\<close>,
  activity \<open>ready\<close>, elapsed and remaining \<open>0:00\<close>). The stored timeline, \<open>index\<close>,
  \<open>remaining\<close> and \<open>elapsed\<close> keep their values.
\<close>

theorem stop_cancels_and_shows_idle:
  assumes "reachable s"
  shows "timers (stop s) = [] \<and> runMode (stop s) = Idle \<and>
         dom (stop s) = \<lparr>clock = ''00:00'', activityEl = ''ready'', intervalEl = [],
                          elapsedEl = ''0:00'', remainingEl = ''0:00''\<rparr> \<and>
         trace (stop s) = trace s @ [Shown (dom (stop s))] \<and>
         timeline (stop s) = timeline s \<and> index (stop s) = index s \<and>
         remaining (stop s) = remaining s \<and> elapsed (stop s) = elapsed s"
proof -
  have "owned s"
    using reachable_timers_ok [OF assms] by (simp add: timers_ok_def)
  then have "timers (stop s) = []"
    by (rule timers_stop)
  then show ?thesis
    by (simp add: stop_def Let_def runMode_def updateControls_def)
qed

lemma start_10s:
  "startBtn_onclick ''10s'' init =
     \<lparr>timeline =
        [\<lparr>name = Some [], duration = Num 10, interval = Undefined, intervalTotal = Undefined\<rparr>],
      index = 0, remaining = Num 10, elapsed = 0, intervalId = Some 1,
      sampleTimeoutId = None, isRunning = True, isPaused = False,
      dom = \<lparr>clock = ''0:10'', activityEl = [], intervalEl = [],
              elapsedEl = ''0:00'', remainingEl = ''0:10''\<rparr>,
      startActive = True, pauseActive = False, timers = [(1, Interval 1000)], nextId = 2,
      trace = [Shown \<lparr>clock = ''0:10'', activityEl = [], intervalEl = [],
                       elapsedEl = ''0:00'', remainingEl = ''0:10''\<rparr>]\<rparr>"
  by code_simp

theorem stop_cancels_and_shows_idle_witness:
  "timers (startBtn_onclick ''10s'' init) = [(1, Interval 1000)] \<and>
   timers (stop (startBtn_onclick ''10s'' init)) = [] \<and>
   runMode (stop (startBtn_onclick ''10s'' init)) = Idle \<and>
   remaining (stop (startBtn_onclick ''10s'' init)) = Num 10"
  using stop_cancels_and_shows_idle [OF reach_start [OF reach_init], of "''10s''"]
  by (simp add: start_10s)

text \<open>
  One second into a run on \<open>10s\<close>, \<open>stop\<close> leaves \<open>remaining = 9\<close>, \<open>elapsed = 1\<close>
  and the timeline in place: the timer state is not reset.
\<close>

theorem stop_keeps_timer_state:
  "remaining (stop (elapse (startBtn_onclick ''10s'' init))) = Num 9 \<and>
   remaining (stop (elapse (startBtn_onclick ''10s'' init))) \<noteq> remaining init \<and>
   elapsed (stop (elapse (startBtn_onclick ''10s'' init))) = 1 \<and>
   elapsed (stop (elapse (startBtn_onclick ''10s'' init))) \<noteq> elapsed init \<and>
   timeline (stop (elapse (startBtn_onclick ''10s'' init))) \<noteq> timeline init"
  unfolding start_10s by code_simp

section \<open>Starting on an empty timeline\<close>

lemma no_steps_of_empty_input: "flattenWorkout (parseWorkout []) = []"
  by code_simp

text \<open>
  C4. The empty input has an empty timeline. While a run on \<open>10s\<close> is under way,
  \<open>start\<close> on the empty input returns without an effect and leaves every global as it
  was but the stored timeline, which is now empty; the next tick then throws.
\<close>

theorem start_on_empty_input_drops_timeline:
  "flattenWorkout (parseWorkout []) = [] \<and>
   runMode (startBtn_onclick ''10s'' init) = Running \<and>
   timeline (startBtn_onclick ''10s'' init) \<noteq> [] \<and>
   start [] (startBtn_onclick ''10s'' init)
     = Returned ((startBtn_onclick ''10s'' init)\<lparr>timeline := []\<rparr>) \<and>
   tick ((startBtn_onclick ''10s'' init)\<lparr>timeline := []\<rparr>)
     = Threw ((startBtn_onclick ''10s'' init)
                \<lparr>timeline := [], remaining := Num 9, elapsed := 1,
                  dom := (dom (startBtn_onclick ''10s'' init))\<lparr>clock := ''0:09''\<rparr>\<rparr>)"
  unfolding start_empty [OF no_steps_of_empty_input] start_10s no_steps_of_empty_input
  by code_simp

section \<open>The index and the remaining seconds\<close>

lemma in_step_pause_resume:
  "in_step (pause s) = in_step s" "in_step (resume s) = in_step s"
  by (simp_all add: in_step_def resume_def pause_def Let_def setInterval_def setTimeout_def
      playSample_def clearSample_def clearTimer_def updateControls_def split: option.splits)

lemma in_step_start:
  assumes "flattenWorkout (parseWorkout inputValue) \<noteq> []"
    and "countable_durations (flattenWorkout (parseWorkout inputValue))"
  shows "in_step (settle (start inputValue s))"
  using running_start(1) [OF assms] by (simp add: running_def)

lemma in_step_tick:
  assumes "running s"
  shows "runMode (on_tick s) = Finished \<or> running (on_tick s)"
  using tick_step [OF assms] by blast

lemma start_empty_while_running:
  assumes "flattenWorkout (parseWorkout inputValue) = []"
  shows "isRunning (settle (start inputValue s)) = isRunning s \<and>
         isPaused (settle (start inputValue s)) = isPaused s \<and>
         \<not> in_step (settle (start inputValue s))"
  by (simp add: start_empty [OF assms] in_step_def)

text \<open>
  C8. A run on \<open>10s\<close> is in its step: the index is valid and \<open>remaining\<close> is within the
  duration. A \<open>start\<close> on the empty input, whose timeline has no step with a bad duration,
  leaves the timer running with \<open>index = 0\<close> and an empty timeline.
\<close>

theorem start_on_empty_input_breaks_index:
  "well_formed (flattenWorkout (parseWorkout ''10s'')) \<and>
   runMode (startBtn_onclick ''10s'' init) = Running \<and>
   in_step (startBtn_onclick ''10s'' init) \<and>
   well_formed (flattenWorkout (parseWorkout [])) \<and>
   runMode (startBtn_onclick [] (startBtn_onclick ''10s'' init)) = Running \<and>
   \<not> index (startBtn_onclick [] (startBtn_onclick ''10s'' init))
       < length (timeline (startBtn_onclick [] (startBtn_onclick ''10s'' init))) \<and>
   \<not> in_step (startBtn_onclick [] (startBtn_onclick ''10s'' init))"
proof -
  have "flattenWorkout (parseWorkout ''10s'') = timeline (startBtn_onclick ''10s'' init)"
    by code_simp
  then show ?thesis
    unfolding start_10s no_steps_of_empty_input
    by (simp add: startBtn_onclick_def start_empty [OF no_steps_of_empty_input]
        well_formed_def runMode_def in_step_def)
qed

section \<open>Lines that do not parse\<close>

lemma not_a_number_never_ends:
  assumes "remaining s = NaN" and "index s < length (timeline s)"
  shows "remaining (on_tick s) = NaN \<and> index (on_tick s) = index s \<and>
         timeline (on_tick s) = timeline s \<and> isRunning (on_tick s) = isRunning s"
  using assms
  by (simp add: on_tick_def tick_count updateUI_in_range pulseClock_def counted_def)

lemma unparsed_line_kept:
  "match_at re_set line = None \<Longrightarrow> parseActivity line = None \<Longrightarrow>
   parseLine line = ActivityBlock None"
  by (simp add: parseLine_def)

lemma parseWorkout_keeps_every_line:
  "length (parseWorkout txt)
   = length (filter Boolean_string (map trim (split (CHR 0x0A) txt)))"
  by (simp add: parseWorkout_def Boolean_block_def)

text \<open>
  C3. The line \<open>hello\<close> matches neither the set pattern nor the activity pattern, and
  \<open>parseWorkout\<close> keeps a block for it: an activity without name and duration, which
  \<open>flattenWorkout\<close> turns into a step of the timeline. A run on it shows \<open>NaN\<close>. The
  same text as an item of a set is dropped.
\<close>

theorem parseWorkout_keeps_unparsed_line:
  "match_at re_set ''hello'' = None \<and> parseActivity ''hello'' = None \<and>
   parseWorkout ''hello'' = [ActivityBlock None] \<and>
   flattenWorkout (parseWorkout ''hello'') = [no_properties] \<and>
   remaining (startBtn_onclick ''hello'' init) = NaN \<and>
   parseWorkout ''2x(hello, 30s rest)'' =
     [SetBlock (Num 2) [\<lparr>name = Some ''rest'', duration = Num 30, interval = Undefined,
                           intervalTotal = Undefined\<rparr>]]"
  by code_simp

section \<open>Activities\<close>

text \<open>
  C7. \<open>45s\<close> parses to the unnamed activity of 45 seconds, and minutes and seconds add
  up whatever the case of the letters; but in \<open>10s s\<close> the text \<open>s\<close> after the duration is
  taken into the duration match and the name is empty.
\<close>

theorem parseActivity_takes_name_into_duration:
  "parseActivity ''45s'' =
     Some \<lparr>name = Some [], duration = Num 45, interval = Undefined, intervalTotal = Undefined\<rparr> \<and>
   parseActivity ''1Min 30SEC jog'' =
     Some \<lparr>name = Some ''jog'', duration = Num 90, interval = Undefined, intervalTotal = Undefined\<rparr> \<and>
   parseActivity ''10s s'' =
     Some \<lparr>name = Some [], duration = Num 10, interval = Undefined, intervalTotal = Undefined\<rparr>"
  by code_simp

end
